theory Spec2Isabelle
  imports Main "HOL-Library.Monad_Syntax" "HOL-Library.Char_ord" "HOL-Library.List_Lexorder"
begin

section \<open>The repository URL parser\<close>

text \<open>
  \<open>_parse_repo_url\<close> searches its argument with the regular expression
  \<^verbatim>\<open>(?:https?://[^/]+/|git@[\w.-]+:)([^/]+)/([^/]+)$\<close>.
  A character of the model is a code point below 256. Each piece of the expression is
  a function from the remaining input to the list of ways it can match, in the order in
  which a backtracking matcher tries them; the first element of the list is the match
  that \<open>re.search\<close> reports.
\<close>

text \<open>The class \<^verbatim>\<open>[^/]\<close>.\<close>

definition not_slash :: "char \<Rightarrow> bool" where
  "not_slash c = (c \<noteq> CHR ''/'')"

text \<open>
  The class \<^verbatim>\<open>\w\<close> of a Unicode pattern, on code points below 256: the characters that
  are alphanumeric for Python, and the underscore.
\<close>

definition word_char :: "char \<Rightarrow> bool" where
  "word_char c =
     (let n = (of_char c :: nat)
      in (48 \<le> n \<and> n \<le> 57) \<or> (65 \<le> n \<and> n \<le> 90) \<or> n = 95 \<or> (97 \<le> n \<and> n \<le> 122)
         \<or> n = 170 \<or> n = 178 \<or> n = 179 \<or> n = 181 \<or> n = 185 \<or> n = 186
         \<or> (188 \<le> n \<and> n \<le> 190) \<or> (192 \<le> n \<and> n \<le> 214) \<or> (216 \<le> n \<and> n \<le> 246)
         \<or> 248 \<le> n)"

text \<open>The class \<^verbatim>\<open>[\w.-]\<close>.\<close>

definition host_char :: "char \<Rightarrow> bool" where
  "host_char c = (word_char c \<or> c = CHR ''.'' \<or> c = CHR ''-'')"

text \<open>A literal: it matches in at most one way, leaving the rest of the input.\<close>

fun lit :: "string \<Rightarrow> string \<Rightarrow> string list" where
  "lit [] s = [s]"
| "lit (c # cs) [] = []"
| "lit (c # cs) (d # ds) = (if c = d then lit cs ds else [])"

text \<open>An optional literal (\<^verbatim>\<open>s?\<close>), greedy: first with the literal, then without.\<close>

definition opt_lit :: "string \<Rightarrow> string \<Rightarrow> string list" where
  "opt_lit p s = lit p s @ [s]"

text \<open>
  One or more characters of a class (\<^verbatim>\<open>[...]+\<close>), greedy: the longest run first, then each
  shorter one, down to a single character. Each way is the matched text and the rest.
\<close>

fun plus_class :: "(char \<Rightarrow> bool) \<Rightarrow> string \<Rightarrow> (string \<times> string) list" where
  "plus_class P [] = []"
| "plus_class P (c # cs) =
     (if P c then map (\<lambda>(m, r). (c # m, r)) (plus_class P cs) @ [([c], cs)] else [])"

text \<open>
  \<^verbatim>\<open>$\<close> without the multi-line flag: at the end of the input, or before a newline that
  ends the input.
\<close>

definition at_end :: "string \<Rightarrow> string list" where
  "at_end s = (if s = [] \<or> s = [CHR 0x0A] then [s] else [])"

text \<open>The first alternative of the prefix, \<^verbatim>\<open>https?://[^/]+/\<close>.\<close>

definition alt_http :: "string \<Rightarrow> string list" where
  "alt_http s = do {
     r0 \<leftarrow> lit ''http'' s;
     r1 \<leftarrow> opt_lit ''s'' r0;
     r2 \<leftarrow> lit ''://'' r1;
     (h, r3) \<leftarrow> plus_class not_slash r2;
     lit ''/'' r3
   }"

text \<open>The second alternative, \<^verbatim>\<open>git@[\w.-]+:\<close>.\<close>

definition alt_git :: "string \<Rightarrow> string list" where
  "alt_git s = do {
     r0 \<leftarrow> lit ''git@'' s;
     (h, r1) \<leftarrow> plus_class host_char r0;
     lit '':'' r1
   }"

text \<open>The two groups and the anchor, \<^verbatim>\<open>([^/]+)/([^/]+)$\<close>.\<close>

definition owner_name :: "string \<Rightarrow> (string \<times> string) list" where
  "owner_name s = do {
     (g1, r1) \<leftarrow> plus_class not_slash s;
     r2 \<leftarrow> lit ''/'' r1;
     (g2, r3) \<leftarrow> plus_class not_slash r2;
     _ \<leftarrow> at_end r3;
     [(g1, g2)]
   }"

text \<open>The whole expression at one position: the alternatives in their order.\<close>

definition match_here :: "string \<Rightarrow> (string \<times> string) list" where
  "match_here s = do { r \<leftarrow> alt_http s @ alt_git s; owner_name r }"

text \<open>\<open>re.search\<close>: the first position, from the left, at which the expression matches.\<close>

fun re_search :: "string \<Rightarrow> (string \<times> string) option" where
  "re_search [] = (case match_here [] of [] \<Rightarrow> None | m # _ \<Rightarrow> Some m)"
| "re_search (c # cs) = (case match_here (c # cs) of [] \<Rightarrow> re_search cs | m # _ \<Rightarrow> Some m)"

text \<open>\<open>str.endswith\<close>.\<close>

definition endswith :: "string \<Rightarrow> string \<Rightarrow> bool" where
  "endswith s suf = (length suf \<le> length s \<and> drop (length s - length suf) s = suf)"

text \<open>
  \<open>_parse_repo_url\<close>: the two groups, the second without a final \<open>.git\<close>
  (\<open>name_with_suffix[:-4]\<close>), or \<open>(None, None)\<close> when nothing matches.
\<close>

definition parse_repo_url :: "string \<Rightarrow> string option \<times> string option" where
  "parse_repo_url repo_url =
     (case re_search repo_url of
        Some (owner, name_with_suffix) \<Rightarrow>
          (Some owner,
           Some (if endswith name_with_suffix ''.git''
                 then take (length name_with_suffix - 4) name_with_suffix
                 else name_with_suffix))
      | None \<Rightarrow> (None, None))"


text \<open>The part of a URL after its last slash.\<close>

definition final_segment :: "string \<Rightarrow> string" where
  "final_segment url = rev (takeWhile not_slash (rev url))"

section \<open>The session and its tools\<close>

subsection \<open>Truthiness, string helpers and \<open>os.path\<close>\<close>

text \<open>
  Python's truth test on an \<open>Optional[str]\<close>: \<open>None\<close> and the empty string are both falsy.
\<close>

definition truthy :: "string option \<Rightarrow> bool" where
  "truthy v = (case v of None \<Rightarrow> False | Some s \<Rightarrow> s \<noteq> [])"

text \<open>How an \<open>Optional[str]\<close> prints inside an f-string.\<close>

definition py_str :: "string option \<Rightarrow> string" where
  "py_str v = (case v of None \<Rightarrow> ''None'' | Some s \<Rightarrow> s)"

definition startswith :: "string \<Rightarrow> string \<Rightarrow> bool" where
  "startswith s pre = (take (length pre) s = pre)"

text \<open>\<open>sub in s\<close> on strings.\<close>

fun contains :: "string \<Rightarrow> string \<Rightarrow> bool" where
  "contains [] sub = (sub = [])"
| "contains (c # cs) sub = (startswith (c # cs) sub \<or> contains cs sub)"

text \<open>\<open>str.strip()\<close>: the whitespace code points below 256.\<close>

definition py_space :: "char \<Rightarrow> bool" where
  "py_space c =
     (let n = (of_char c :: nat)
      in (9 \<le> n \<and> n \<le> 13) \<or> (28 \<le> n \<and> n \<le> 32) \<or> n = 133 \<or> n = 160)"

definition strip :: "string \<Rightarrow> string" where
  "strip s = rev (dropWhile py_space (rev (dropWhile py_space s)))"

definition join_with :: "string \<Rightarrow> string list \<Rightarrow> string" where
  "join_with sep xs = (case xs of [] \<Rightarrow> [] | y # ys \<Rightarrow> y @ concat (map (\<lambda>z. sep @ z) ys))"

definition apos :: string where
  "apos = [CHR 0x27]"

text \<open>\<open>posixpath.join\<close> for two arguments, and \<open>posixpath.dirname\<close>.\<close>

definition os_path_join :: "string \<Rightarrow> string \<Rightarrow> string" where
  "os_path_join a b =
     (if startswith b ''/'' then b
      else if a = [] \<or> endswith a ''/'' then a @ b
      else a @ ''/'' @ b)"

definition os_path_dirname :: "string \<Rightarrow> string" where
  "os_path_dirname p =
     (let head = rev (dropWhile not_slash (rev p))
      in if head \<noteq> [] \<and> filter not_slash head \<noteq> []
         then rev (dropWhile (\<lambda>c. c = CHR ''/'') (rev head))
         else head)"

subsection \<open>The session record, the state file and the file system\<close>

text \<open>
  \<open>active_repo_details\<close> is a dictionary with the four keys \<open>path\<close>, \<open>url\<close>, \<open>owner\<close>
  and \<open>name\<close>, each \<open>None\<close> or a string.
\<close>

record repo_details =
  path :: "string option"
  url :: "string option"
  owner :: "string option"
  name :: "string option"

definition empty_details :: repo_details where
  "empty_details = \<lparr>path = None, url = None, owner = None, name = None\<rparr>"

text \<open>
  What \<open>active_repo_state.json\<close> holds: nothing (no such file), content that
  \<open>json.load\<close> or the following \<open>.get\<close> rejects, or a record of the four keys as
  \<open>_save_state\<close> writes it.
\<close>

datatype stored = NoFile | Unparseable | Stored repo_details

text \<open>
  A regular file: its text as decoded, or the text of the exception that \<open>open\<close> or
  \<open>read\<close> raises on it (no permission, bytes that are not UTF-8).
\<close>

datatype file_content = Text string | Unreadable string

text \<open>
  The process state and the part of the file system the tools touch. Path names are
  compared as strings; \<open>dirs\<close> are the existing directories, \<open>files\<close> the regular files.
\<close>

record world =
  active_repo_details :: repo_details
  state_file :: stored
  dirs :: "string set"
  files :: "string \<rightharpoonup> file_content"

definition os_path_exists :: "world \<Rightarrow> string \<Rightarrow> bool" where
  "os_path_exists w p = (p \<in> dirs w \<or> files w p \<noteq> None)"

definition os_path_isdir :: "world \<Rightarrow> string \<Rightarrow> bool" where
  "os_path_isdir w p = (p \<in> dirs w)"

definition os_path_isfile :: "world \<Rightarrow> string \<Rightarrow> bool" where
  "os_path_isfile w p = (files w p \<noteq> None)"

text \<open>A path is below \<open>d\<close> when it is \<open>d\<close> itself or starts with \<open>d/\<close>.\<close>

definition below :: "string \<Rightarrow> string \<Rightarrow> bool" where
  "below d p = (p = d \<or> startswith p (d @ ''/''))"

subsection \<open>Outcomes of the environment\<close>

text \<open>
  Every call that leaves the process has its outcome chosen by the environment; the
  tools receive these outcomes as arguments. Log calls (\<open>logger\<close>, \<open>ctx.info\<close>,
  \<open>ctx.warning\<close>, \<open>ctx.error\<close>) have no effect on the results and are left out.
\<close>

text \<open>
  Writing the state file: written in full, \<open>open\<close> raised (the file is left as it
  was), or the write raised after \<open>open\<close> had truncated the file.
\<close>

datatype write_outcome = Written | OpenFailed | WriteTorn

text \<open>\<open>shutil.rmtree\<close>: the tree is removed, or an exception with its text.\<close>

datatype rm_outcome = Removed | RmFailed string

text \<open>
  \<open>tempfile.mkdtemp(prefix="mcp_clone_")\<close>: a directory of that prefix created under
  the temporary root with a random part, or \<open>FileNotFoundError\<close>, or another exception
  with its text.
\<close>

datatype mkdtemp_outcome = TempCreated string string | TempFileNotFound | TempError string

text \<open>
  \<open>subprocess.run(..., capture_output=True, text=True, check=True)\<close>:
  \<open>Completed returncode stdout stderr\<close>, \<open>CalledProcessError stdout stderr str(e)\<close>
  for a non-zero exit, \<open>FileNotFoundError\<close> for a missing executable, or any other
  exception with its text.
\<close>

datatype run_result =
    Completed int string string
  | CalledProcessError string string string
  | FileNotFoundError
  | OtherException string

record clone_env =
  rm_previous :: rm_outcome
  save_cleared :: write_outcome
  mkdtemp :: mkdtemp_outcome
  git_clone :: run_result
  save_cloned :: write_outcome
  rm_temp :: rm_outcome

subsection \<open>The state store\<close>

definition save_state :: "write_outcome \<Rightarrow> world \<Rightarrow> world" where
  "save_state wo w =
     (case wo of
        Written \<Rightarrow> w\<lparr>state_file := Stored (active_repo_details w)\<rparr>
      | OpenFailed \<Rightarrow> w
      | WriteTorn \<Rightarrow> w\<lparr>state_file := Unparseable\<rparr>)"

definition load_state :: "world \<Rightarrow> world" where
  "load_state w =
     (case state_file w of
        NoFile \<Rightarrow> w
      | Unparseable \<Rightarrow> w
      | Stored loaded_details \<Rightarrow>
          (case path loaded_details of
             None \<Rightarrow> w
           | Some p \<Rightarrow>
               if p \<noteq> [] \<and> os_path_isdir w p
               then w\<lparr>active_repo_details := loaded_details\<rparr>
               else if p \<noteq> [] then w
               else w))"

text \<open>
  A fresh process: the module sets \<open>active_repo_details\<close> to four \<open>None\<close>s and then
  calls \<open>_load_state()\<close>.
\<close>

definition process_start :: "world \<Rightarrow> world" where
  "process_start w = load_state (w\<lparr>active_repo_details := empty_details\<rparr>)"

subsection \<open>Cloning\<close>

definition rmtree :: "rm_outcome \<Rightarrow> string \<Rightarrow> world \<Rightarrow> string + world" where
  "rmtree ro p w =
     (case ro of
        RmFailed e \<Rightarrow> Inl e
      | Removed \<Rightarrow>
          if os_path_isdir w p
          then Inr (w\<lparr>dirs := {d \<in> dirs w. \<not> below p d},
                      files := (\<lambda>f. if below p f then None else files w f)\<rparr>)
          else Inl (''[Errno 20] Not a directory: '' @ apos @ p @ apos))"

text \<open>Lines 319 to 328: the previous clone is removed; a failure is only a warning.\<close>

definition cleanup_previous :: "clone_env \<Rightarrow> world \<Rightarrow> world" where
  "cleanup_previous env w =
     (case path (active_repo_details w) of
        None \<Rightarrow> w
      | Some previous_repo_path \<Rightarrow>
          if previous_repo_path \<noteq> [] \<and> os_path_exists w previous_repo_path
          then (case rmtree (rm_previous env) previous_repo_path w of
                  Inr w' \<Rightarrow> w'
                | Inl e \<Rightarrow> w)
          else w)"

text \<open>Lines 330 to 332: the session is reset and the cleared state is saved.\<close>

definition clone_prepare :: "clone_env \<Rightarrow> world \<Rightarrow> world" where
  "clone_prepare env w =
     save_state (save_cleared env)
       ((cleanup_previous env w)\<lparr>active_repo_details := empty_details\<rparr>)"

text \<open>
  Line 337. The result is the new directory and the world that holds it, in which
  the clone command then runs.
\<close>

datatype temp_error = RaisedFileNotFound | RaisedOther string

definition mkdtemp_path :: "string \<Rightarrow> string \<Rightarrow> string" where
  "mkdtemp_path root rnd = os_path_join root (''mcp_clone_'' @ rnd)"

definition make_temp_dir :: "mkdtemp_outcome \<Rightarrow> world \<Rightarrow> temp_error + string \<times> world" where
  "make_temp_dir mo w =
     (case mo of
        TempCreated root rnd \<Rightarrow>
          (let temp_dir = mkdtemp_path root rnd
           in Inr (temp_dir, w\<lparr>dirs := insert temp_dir (dirs w)\<rparr>))
      | TempFileNotFound \<Rightarrow> Inl RaisedFileNotFound
      | TempError e \<Rightarrow> Inl (RaisedOther e))"

text \<open>
  \<open>if temp_dir and os.path.exists(temp_dir)\<close> followed by a guarded \<open>shutil.rmtree\<close>,
  as the handlers for \<open>CalledProcessError\<close> and \<open>Exception\<close> do.
\<close>

definition cleanup_temp :: "rm_outcome \<Rightarrow> string \<Rightarrow> world \<Rightarrow> world" where
  "cleanup_temp ro temp_dir w =
     (if temp_dir \<noteq> [] \<and> os_path_exists w temp_dir
      then (case rmtree ro temp_dir w of Inr w' \<Rightarrow> w' | Inl e \<Rightarrow> w)
      else w)"

definition GIT_NOT_FOUND :: string where
  "GIT_NOT_FOUND = ''Error: Git command not found. Please ensure Git is installed and in your PATH.''"

definition NO_ACTIVE_REPOSITORY :: string where
  "NO_ACTIVE_REPOSITORY =
     ''Error: No active repository. Please clone a repository first using '' @ apos
       @ ''clone_repository'' @ apos @ ''.''"

text \<open>The text returned by a successful clone (lines 359 to 363).\<close>

definition clone_success_message ::
  "string \<Rightarrow> string \<Rightarrow> string option \<Rightarrow> string option \<Rightarrow> string" where
  "clone_success_message repo_url temp_dir ow nm =
     (let msg = ''Repository '' @ repo_url @ '' cloned successfully to '' @ temp_dir
                  @ '' and set as active. State saved.''
      in if truthy ow \<and> truthy nm
         then msg @ '' Parsed owner: '' @ apos @ py_str ow @ apos @ '', name: ''
                @ apos @ py_str nm @ apos @ ''.''
         else msg @ '' Could not parse owner/name from URL for GitHub operations.'')"

text \<open>Lines 335 to 394, from the creation of the temporary directory on.\<close>

definition clone_attempt :: "clone_env \<Rightarrow> string \<Rightarrow> world \<Rightarrow> string \<times> world" where
  "clone_attempt env repo_url w =
     (case make_temp_dir (mkdtemp env) w of
        Inl RaisedFileNotFound \<Rightarrow> (GIT_NOT_FOUND, w)
      | Inl (RaisedOther e) \<Rightarrow> (''An unexpected error occurred during clone: '' @ e, w)
      | Inr (temp_dir, w1) \<Rightarrow>
          (case git_clone env of
             Completed returncode out err \<Rightarrow>
               if returncode = 0 then
                 (let (ow, nm) = parse_repo_url repo_url;
                      w2 = save_state (save_cloned env)
                             (w1\<lparr>active_repo_details :=
                                   \<lparr>path = Some temp_dir, url = Some repo_url,
                                    owner = ow, name = nm\<rparr>\<rparr>)
                  in (clone_success_message repo_url temp_dir ow nm, w2))
               else if temp_dir \<noteq> [] \<and> os_path_exists w1 temp_dir then
                 (case rmtree (rm_temp env) temp_dir w1 of
                    Inr w2 \<Rightarrow> (''Error cloning repository: '' @ err, w2)
                  | Inl e \<Rightarrow> (''An unexpected error occurred during clone: '' @ e,
                              cleanup_temp (rm_temp env) temp_dir w1))
               else (''Error cloning repository: '' @ err, w1)
           | CalledProcessError out err txt \<Rightarrow>
               (''Error cloning repository '' @ repo_url @ '': '' @ (if err \<noteq> [] then err else txt),
                cleanup_temp (rm_temp env) temp_dir w1)
           | FileNotFoundError \<Rightarrow> (GIT_NOT_FOUND, w1)
           | OtherException e \<Rightarrow>
               (''An unexpected error occurred during clone: '' @ e,
                cleanup_temp (rm_temp env) temp_dir w1)))"

definition clone_repository :: "clone_env \<Rightarrow> string \<Rightarrow> world \<Rightarrow> string \<times> world" where
  "clone_repository env repo_url w = clone_attempt env repo_url (clone_prepare env w)"

subsection \<open>The tools that need an active repository\<close>

definition create_git_branch ::
  "run_result \<Rightarrow> string \<Rightarrow> string option \<Rightarrow> world \<Rightarrow> string \<times> world" where
  "create_git_branch run branch_name base_branch w =
     (if \<not> truthy (path (active_repo_details w)) then (NO_ACTIVE_REPOSITORY, w)
      else
        (let repo_path = py_str (path (active_repo_details w));
             base = (if truthy base_branch then py_str base_branch else ''current HEAD'')
         in (case run of
               Completed returncode out err \<Rightarrow>
                 if returncode = 0
                 then ''Branch '' @ apos @ branch_name @ apos
                        @ '' created successfully and checked out from '' @ apos @ base @ apos
                        @ '' in '' @ repo_path @ ''.''
                 else ''Error creating branch '' @ apos @ branch_name @ apos @ '': '' @ err
             | CalledProcessError out err txt \<Rightarrow>
                 ''Error creating branch '' @ apos @ branch_name @ apos @ '': ''
                   @ (if err \<noteq> [] then err else txt)
             | FileNotFoundError \<Rightarrow> GIT_NOT_FOUND
             | OtherException e \<Rightarrow> ''An unexpected error occurred: '' @ e,
             w)))"

definition nothing_to_commit :: "string \<Rightarrow> bool" where
  "nothing_to_commit s = (contains s ''nothing to commit'' \<or> contains s ''no changes added to commit'')"

text \<open>The handlers of \<open>git_commit_changes\<close>, shared by its two \<open>subprocess.run\<close> calls.\<close>

definition commit_failure :: "string \<Rightarrow> run_result \<Rightarrow> string" where
  "commit_failure repo_path run =
     (case run of
        CalledProcessError out err txt \<Rightarrow>
          (let output = strip out; err_output = strip err
           in if nothing_to_commit output \<or> nothing_to_commit err_output
              then ''No changes to commit in active repo ('' @ repo_path @ ''). Working tree clean.''
              else ''Error during git operation in active repo ('' @ repo_path @ ''): ''
                     @ (if err_output \<noteq> [] then err_output
                        else if output \<noteq> [] then output else txt))
      | FileNotFoundError \<Rightarrow> GIT_NOT_FOUND
      | OtherException e \<Rightarrow> ''An unexpected error occurred: '' @ e
      | Completed returncode out err \<Rightarrow> [])"

definition git_commit_changes ::
  "run_result \<Rightarrow> run_result \<Rightarrow> string \<Rightarrow> world \<Rightarrow> string \<times> world" where
  "git_commit_changes add_run commit_run commit_message w =
     (if \<not> truthy (path (active_repo_details w)) then (NO_ACTIVE_REPOSITORY, w)
      else
        (let repo_path = py_str (path (active_repo_details w))
         in (case add_run of
               Completed add_returncode add_out add_err \<Rightarrow>
                 if add_returncode \<noteq> 0
                 then ''Error staging changes in '' @ repo_path @ '': '' @ add_err
                 else
                   (case commit_run of
                      Completed returncode out err \<Rightarrow>
                        if returncode = 0 then
                          if contains out ''nothing to commit, working tree clean''
                             \<or> contains out ''no changes added to commit''
                          then ''No changes to commit in active repo ('' @ repo_path
                                 @ ''). Working tree clean.''
                          else ''Changes committed successfully in active repo ('' @ repo_path
                                 @ '') with message: '' @ apos @ commit_message @ apos @ ''.''
                        else ''Error committing changes: '' @ err
                    | _ \<Rightarrow> commit_failure repo_path commit_run)
             | _ \<Rightarrow> commit_failure repo_path add_run,
             w)))"

definition git_push_branch ::
  "run_result \<Rightarrow> string \<Rightarrow> bool \<Rightarrow> world \<Rightarrow> string \<times> world" where
  "git_push_branch run branch_name set_upstream w =
     (if \<not> truthy (path (active_repo_details w)) then (NO_ACTIVE_REPOSITORY, w)
      else
        (let repo_path = py_str (path (active_repo_details w))
         in (case run of
               Completed returncode out err \<Rightarrow>
                 if returncode = 0
                 then ''Branch '' @ apos @ branch_name @ apos
                        @ '' pushed to origin successfully from active repo ('' @ repo_path @ '').''
                        @ (if out \<noteq> [] then ''\<newline>Output:\<newline>'' @ strip out else [])
                        @ (if err \<noteq> [] then ''\<newline>Info:\<newline>'' @ strip err else [])
                 else ''Error pushing branch '' @ apos @ branch_name @ apos @ '': '' @ err
             | CalledProcessError out err txt \<Rightarrow>
                 ''Error pushing branch '' @ apos @ branch_name @ apos @ '' in active repo (''
                   @ repo_path @ ''): ''
                   @ (if err \<noteq> [] then err else if out \<noteq> [] then out else txt)
             | FileNotFoundError \<Rightarrow> GIT_NOT_FOUND
             | OtherException e \<Rightarrow> ''An unexpected error occurred: '' @ e,
             w)))"

text \<open>
  The forge call of \<open>create_github_pr\<close>: the pull request's \<open>html_url\<close>, or an exception
  with its text, the \<open>message\<close> and \<open>errors\<close> entries of its \<open>data\<close> (when it has a
  non-empty \<open>data\<close> holding them) and its \<open>status\<close> (when it has one), each as printed.
\<close>

datatype gh_result =
    PullCreated string
  | GithubRaised string "string option" "string option" "string option"

definition OWNER_NAME_MISSING :: string where
  "OWNER_NAME_MISSING =
     ''Error: Active repository details (owner/name) not found or incomplete. ''
       @ ''Ensure the repository was cloned successfully and owner/name could be parsed from the URL.''"

definition create_github_pr ::
  "gh_result \<Rightarrow> string \<Rightarrow> string \<Rightarrow> string \<Rightarrow> string \<Rightarrow> world \<Rightarrow> string \<times> world" where
  "create_github_pr gh title body base_branch head_branch w =
     (if \<not> truthy (owner (active_repo_details w)) \<or> \<not> truthy (name (active_repo_details w))
      then (if \<not> truthy (path (active_repo_details w)) then NO_ACTIVE_REPOSITORY
            else OWNER_NAME_MISSING, w)
      else
        (let repo_owner = py_str (owner (active_repo_details w));
             repo_name = py_str (name (active_repo_details w))
         in (case gh of
               PullCreated html_url \<Rightarrow> ''Successfully created PR: '' @ html_url
             | GithubRaised txt data_message data_errors status \<Rightarrow>
                 ''Error creating GitHub PR for active repo '' @ repo_owner @ ''/'' @ repo_name
                   @ '' ('' @ apos @ head_branch @ apos @ '' -> '' @ apos @ base_branch @ apos
                   @ ''): '' @ txt
                   @ (case data_message of
                        Some m \<Rightarrow>
                          '' - API Message: '' @ m
                            @ (case data_errors of Some d \<Rightarrow> '' - Details: '' @ d | None \<Rightarrow> [])
                      | None \<Rightarrow>
                          (case status of Some st \<Rightarrow> '' - Status: '' @ st | None \<Rightarrow> [])),
             w)))"

subsection \<open>Path names given by the caller\<close>

text \<open>
  The directories of the clone are the names that \<open>mkdtemp\<close> returned; they are
  absolute and normalised, and are looked up as they are. The file tools build a path
  from an argument of the caller, and the operating system resolves such a path
  component by component: an empty component and \<open>.\<close> stay where they are, \<open>..\<close> goes
  to the parent, and each step needs the place reached so far to be a directory. The
  modelled file system has no symbolic links. A place is absolute or relative to the
  working directory, with its components innermost first; its key in \<open>dirs\<close> and
  \<open>files\<close> is the normalised path name. The root, the working directory and the
  directories above the working directory are taken to exist.
\<close>

fun split_slash :: "string \<Rightarrow> string list" where
  "split_slash [] = [[]]"
| "split_slash (c # cs) =
     (if c = CHR ''/'' then [] # split_slash cs
      else (case split_slash cs of [] \<Rightarrow> [[c]] | x # xs \<Rightarrow> (c # x) # xs))"

type_synonym place = "bool \<times> string list"

definition place_key :: "place \<Rightarrow> string" where
  "place_key pl =
     (case pl of (absolute, st) \<Rightarrow>
        if absolute then ''/'' @ join_with ''/'' (rev st)
        else if st = [] then ''.''
        else join_with ''/'' (rev st))"

definition is_dir_at :: "world \<Rightarrow> place \<Rightarrow> bool" where
  "is_dir_at w pl =
     (case snd pl of [] \<Rightarrow> True | c # cs \<Rightarrow> c = ''..'' \<or> place_key pl \<in> dirs w)"

definition is_file_at :: "world \<Rightarrow> place \<Rightarrow> bool" where
  "is_file_at w pl = (\<not> is_dir_at w pl \<and> files w (place_key pl) \<noteq> None)"

text \<open>One component of a path; \<open>None\<close> when the place reached so far is no directory.\<close>

definition step_into :: "world \<Rightarrow> place \<Rightarrow> string \<Rightarrow> place option" where
  "step_into w pl c =
     (case pl of (absolute, st) \<Rightarrow>
        if \<not> is_dir_at w pl then None
        else if c = [] \<or> c = ''.'' then Some pl
        else if c = ''..'' then
          (case st of
             [] \<Rightarrow> Some (absolute, if absolute then [] else [''..''])
           | t # ts \<Rightarrow> if t = ''..'' then Some (absolute, ''..'' # st) else Some (absolute, ts))
        else Some (absolute, c # st))"

fun walk_path :: "world \<Rightarrow> place \<Rightarrow> string list \<Rightarrow> place option" where
  "walk_path w pl [] = Some pl"
| "walk_path w pl (c # cs) =
     (case step_into w pl c of None \<Rightarrow> None | Some pl' \<Rightarrow> walk_path w pl' cs)"

text \<open>The place a path name denotes; the empty path name denotes none.\<close>

definition resolve :: "world \<Rightarrow> string \<Rightarrow> place option" where
  "resolve w p =
     (if p = [] then None else walk_path w (startswith p ''/'', []) (split_slash p))"

text \<open>\<open>os.path.exists\<close> and \<open>os.path.isfile\<close> on such a path name.\<close>

definition exists_resolved :: "world \<Rightarrow> string \<Rightarrow> bool" where
  "exists_resolved w p =
     (case resolve w p of None \<Rightarrow> False | Some pl \<Rightarrow> is_dir_at w pl \<or> is_file_at w pl)"

definition isfile_resolved :: "world \<Rightarrow> string \<Rightarrow> bool" where
  "isfile_resolved w p =
     (case resolve w p of None \<Rightarrow> False | Some pl \<Rightarrow> is_file_at w pl)"

text \<open>
  Reading in text mode with the default \<open>newline=None\<close>: \<open>\r\n\<close> and a lone \<open>\r\<close>
  arrive as \<open>\n\<close>.
\<close>

fun universal_newlines :: "string \<Rightarrow> string" where
  "universal_newlines [] = []"
| "universal_newlines [c] = (if c = CHR 0x0D then [CHR 0x0A] else [c])"
| "universal_newlines (c # d # cs) =
     (if c = CHR 0x0D \<and> d = CHR 0x0A then CHR 0x0A # universal_newlines cs
      else if c = CHR 0x0D then CHR 0x0A # universal_newlines (d # cs)
      else c # universal_newlines (d # cs))"

definition read_file_in_repo :: "string \<Rightarrow> world \<Rightarrow> string \<times> world" where
  "read_file_in_repo relative_file_path w =
     (if \<not> truthy (path (active_repo_details w)) then (NO_ACTIVE_REPOSITORY, w)
      else
        (let base_path = py_str (path (active_repo_details w));
             full_file_path = os_path_join base_path relative_file_path
         in (if \<not> exists_resolved w full_file_path
             then ''Error: File not found at '' @ full_file_path
             else if \<not> isfile_resolved w full_file_path
             then ''Error: Path exists but is not a file: '' @ full_file_path
             else (case resolve w full_file_path of
                     None \<Rightarrow> ''Error: File not found at '' @ full_file_path
                   | Some pl \<Rightarrow>
                       (case files w (place_key pl) of
                          Some (Text content) \<Rightarrow> universal_newlines content
                        | Some (Unreadable e) \<Rightarrow>
                            ''Error reading file '' @ full_file_path @ '' in active repo: '' @ e
                        | None \<Rightarrow>
                            ''Error: Path exists but is not a file: '' @ full_file_path)),
             w)))"

text \<open>
  \<open>os.makedirs(parent_dir, exist_ok=True)\<close>: it goes through the path and creates each
  directory that is missing; it is refused where a regular file is in the way. The
  result tells whether it went through, and holds the directories created until then.
\<close>

fun makedirs_walk :: "world \<Rightarrow> place \<Rightarrow> string list \<Rightarrow> bool \<times> world" where
  "makedirs_walk w pl [] = (True, w)"
| "makedirs_walk w pl (c # cs) =
     (case step_into w pl c of
        None \<Rightarrow> (False, w)
      | Some pl' \<Rightarrow>
          if is_dir_at w pl' then makedirs_walk w pl' cs
          else if files w (place_key pl') \<noteq> None then (False, w)
          else makedirs_walk (w\<lparr>dirs := insert (place_key pl') (dirs w)\<rparr>) pl' cs)"

definition os_makedirs :: "string \<Rightarrow> world \<Rightarrow> bool \<times> world" where
  "os_makedirs p w =
     (if p = [] then (False, w) else makedirs_walk w (startswith p ''/'', []) (split_slash p))"

text \<open>
  What the environment adds to a call of the operating system: nothing, or an
  exception with its text (no permission, no space).
\<close>

datatype io_outcome = IoDone | IoRaised string

text \<open>
  \<open>open(full_file_path, 'w')\<close> followed by \<open>f.write(content)\<close>: the content is written;
  or \<open>open\<close> raises and the file is as before; or the write raises after \<open>open\<close> has
  emptied the file, leaving what had been written by then. With the default
  \<open>newline=None\<close> on a POSIX system the text is written as it is.
\<close>

datatype file_write_outcome =
    FileWritten
  | FileOpenRaised string
  | FileWriteRaised string string

text \<open>
  \<open>refused\<close> is the text of the exception that the operating system raises where the
  file system itself rules the call out: a regular file where a directory is needed,
  or a directory where the file is to be opened.
\<close>

definition write_file_in_repo ::
  "io_outcome \<Rightarrow> file_write_outcome \<Rightarrow> string \<Rightarrow> string \<Rightarrow> string \<Rightarrow> world
     \<Rightarrow> string \<times> world" where
  "write_file_in_repo makedirs_io write_io refused relative_file_path content w =
     (if \<not> truthy (path (active_repo_details w)) then (NO_ACTIVE_REPOSITORY, w)
      else
        (let base_path = py_str (path (active_repo_details w));
             full_file_path = os_path_join base_path relative_file_path;
             parent_dir = os_path_dirname full_file_path;
             failure = (\<lambda>e. ''Error writing file '' @ os_path_join base_path relative_file_path
                              @ '' in active repo: '' @ e)
         in (case (if parent_dir \<noteq> []
                   then (case makedirs_io of
                           IoRaised e \<Rightarrow> (Some e, w)
                         | IoDone \<Rightarrow>
                             (case os_makedirs parent_dir w of
                                (went_through, w1) \<Rightarrow>
                                  (if went_through then None else Some refused, w1)))
                   else (None, w)) of
               (Some e, w1) \<Rightarrow> (failure e, w1)
             | (None, w1) \<Rightarrow>
                 (case resolve w1 full_file_path of
                    None \<Rightarrow> (failure refused, w1)
                  | Some pl \<Rightarrow>
                      if is_dir_at w1 pl then (failure refused, w1)
                      else
                        (case write_io of
                           FileOpenRaised e \<Rightarrow> (failure e, w1)
                         | FileWriteRaised e partial \<Rightarrow>
                             (failure e, w1\<lparr>files := (files w1)(place_key pl \<mapsto> Text partial)\<rparr>)
                         | FileWritten \<Rightarrow>
                             (''Successfully wrote content to '' @ full_file_path,
                              w1\<lparr>files := (files w1)(place_key pl \<mapsto> Text content)\<rparr>))))))"

text \<open>
  What \<open>os.walk\<close> finds below the repository root: a directory holds file names and
  named subdirectories.
\<close>

datatype dir_tree = Dir "string list" "(string \<times> dir_tree) list"

fun os_walk :: "string \<Rightarrow> dir_tree \<Rightarrow> (string \<times> string list \<times> string list) list" where
  "os_walk top_dir (Dir file_names subs) =
     (top_dir, map fst subs, file_names)
       # concat (map (\<lambda>(d, t). os_walk (os_path_join top_dir d) t) subs)"

datatype walk_result = Walked dir_tree | WalkRaised string

text \<open>The \<open>full_path\<close> values of the two nested loops, in order.\<close>

definition walked_files :: "string \<Rightarrow> dir_tree \<Rightarrow> string list" where
  "walked_files repo_root_path t =
     concat (map (\<lambda>(root, _, file_names). map (os_path_join root) file_names)
                 (os_walk repo_root_path t))"

text \<open>\<open>os.path.relpath\<close> is taken as a parameter.\<close>

definition list_files_in_repo ::
  "(string \<Rightarrow> string \<Rightarrow> string) \<Rightarrow> walk_result \<Rightarrow> world \<Rightarrow> string \<times> world" where
  "list_files_in_repo relpath walk w =
     (if \<not> truthy (path (active_repo_details w)) then (NO_ACTIVE_REPOSITORY, w)
      else
        (let repo_root_path = py_str (path (active_repo_details w))
         in (case walk of
               WalkRaised e \<Rightarrow>
                 ''Error listing files in active repo '' @ repo_root_path @ '': '' @ e
             | Walked t \<Rightarrow>
                 (let file_list = map (\<lambda>full_path. relpath full_path repo_root_path)
                                      (walked_files repo_root_path t)
                  in if file_list = [] then ''No files found in the active repository.''
                     else ''Files in repository:\<newline>'' @ join_with ''\<newline>'' (sort file_list)),
             w)))"

subsection \<open>The states a process can reach\<close>

text \<open>
  A process starts by loading the state file into a cleared session. Afterwards the
  tools run in any order with any outcomes, and the environment may change the file
  system and the state file at any time. The tools that take a caller-supplied path
  (status, branches, summary, history, diff) never touch the session.
\<close>

inductive reachable :: "world \<Rightarrow> bool" where
  start: "reachable (process_start w)"
| clone: "reachable w \<Longrightarrow> reachable (snd (clone_repository env repo_url w))"
| branch: "reachable w \<Longrightarrow> reachable (snd (create_git_branch run b base w))"
| commit: "reachable w \<Longrightarrow> reachable (snd (git_commit_changes add_run commit_run m w))"
| push: "reachable w \<Longrightarrow> reachable (snd (git_push_branch run b up w))"
| pull_request: "reachable w \<Longrightarrow> reachable (snd (create_github_pr gh t bd bb hb w))"
| read_file: "reachable w \<Longrightarrow> reachable (snd (read_file_in_repo rel w))"
| write_file: "reachable w \<Longrightarrow> reachable (snd (write_file_in_repo mk wr rf rel c w))"
| list_files: "reachable w \<Longrightarrow> reachable (snd (list_files_in_repo relpath walk w))"
| environment: "reachable w \<Longrightarrow> reachable (w\<lparr>state_file := s, dirs := d, files := f\<rparr>)"

subsection \<open>Notions used to state the properties\<close>

text \<open>The directory a persisted record refers to, if it refers to one.\<close>

definition stored_path :: "stored \<Rightarrow> string option" where
  "stored_path s = (case s of Stored r \<Rightarrow> path r | _ \<Rightarrow> None)"

text \<open>
  A clone invocation fails when the temporary directory cannot be created or the clone
  command does not complete with exit status 0.
\<close>

definition clone_failed :: "clone_env \<Rightarrow> bool" where
  "clone_failed env =
     (case mkdtemp env of
        TempCreated root rnd \<Rightarrow>
          (case git_clone env of Completed returncode out err \<Rightarrow> returncode \<noteq> 0 | _ \<Rightarrow> True)
      | _ \<Rightarrow> True)"

text \<open>Directory entries are names: not empty, and without a slash.\<close>

fun entry_names_ok :: "dir_tree \<Rightarrow> bool" where
  "entry_names_ok (Dir file_names subs) =
     ((\<forall>f\<in>set file_names. f \<noteq> [] \<and> CHR ''/'' \<notin> set f)
      \<and> (\<forall>(d, t)\<in>set subs. d \<noteq> [] \<and> CHR ''/'' \<notin> set d \<and> entry_names_ok t))"

subsection \<open>Example states\<close>

definition example_details :: repo_details where
  "example_details =
     \<lparr>path = Some ''/tmp/mcp_clone_old'', url = Some ''https://github.com/a/b.git'',
      owner = Some ''a'', name = Some ''b''\<rparr>"

definition example_world :: world where
  "example_world =
     \<lparr>active_repo_details = example_details, state_file = Stored example_details,
      dirs = {''/etc'', ''/tmp'', ''/tmp/mcp_clone_old''},
      files = [''/etc/passwd'' \<mapsto> Text ''root:x:0:0'']\<rparr>"

definition example_env :: clone_env where
  "example_env =
     \<lparr>rm_previous = Removed, save_cleared = Written,
      mkdtemp = TempCreated ''/tmp'' ''k3x9'',
      git_clone = Completed 0 [] ''Cloning into ...'',
      save_cloned = Written, rm_temp = Removed\<rparr>"

definition not_found_result :: run_result where
  "not_found_result =
     CalledProcessError [] ''fatal: repository not found''
       ''Command returned non-zero exit status 128.''"

section \<open>Properties of the matcher\<close>

lemma bind_map: "List.bind (map g xs) f = List.bind xs (\<lambda>x. f (g x))"
  by (induction xs) auto

lemma bind_append: "List.bind (xs @ ys) f = List.bind xs f @ List.bind ys f"
  by (induction xs) auto

lemma plus_class_run:
  "xs \<noteq> [] \<Longrightarrow> \<forall>c\<in>set xs. P c \<Longrightarrow> rest = [] \<or> \<not> P (hd rest) \<Longrightarrow>
   \<exists>t. plus_class P (xs @ rest) = (xs, rest) # t"
proof (induction xs)
  case Nil
  then show ?case by simp
next
  case (Cons c xs)
  show ?case
  proof (cases xs)
    case Nil
    have "plus_class P rest = []" using Cons.prems(3) by (cases rest) auto
    with Nil Cons.prems show ?thesis by simp
  next
    case (Cons d ds)
    with Cons.IH Cons.prems obtain t where "plus_class P (xs @ rest) = (xs, rest) # t" by auto
    with Cons.prems show ?thesis by simp
  qed
qed

lemma plus_then_slash:
  "List.bind (plus_class not_slash r) (\<lambda>(g, r1). List.bind (lit ''/'' r1) (G g)) =
     (case dropWhile not_slash r of [] \<Rightarrow> []
      | c # r2 \<Rightarrow> if takeWhile not_slash r = [] then [] else G (takeWhile not_slash r) r2)"
proof (induction r arbitrary: G)
  case Nil
  then show ?case by simp
next
  case (Cons c cs)
  show ?case
  proof (cases "not_slash c")
    case False
    then show ?thesis by simp
  next
    case True
    have IH: "List.bind (plus_class not_slash cs) (\<lambda>(g, r1). List.bind (lit ''/'' r1) (G (c # g))) =
      (case dropWhile not_slash cs of [] \<Rightarrow> []
        | d # r2 \<Rightarrow> if takeWhile not_slash cs = [] then [] else G (c # takeWhile not_slash cs) r2)"
      using Cons.IH [of "\<lambda>g. G (c # g)"] by simp
    have split: "(\<lambda>x. case (case x of (m, r) \<Rightarrow> (c # m, r)) of (g, r1) \<Rightarrow> List.bind (lit ''/'' r1) (G g))
        = (\<lambda>(g, r1). List.bind (lit ''/'' r1) (G (c # g)))"
      by (auto simp: fun_eq_iff)
    have step: "List.bind (plus_class not_slash (c # cs)) (\<lambda>(g, r1). List.bind (lit ''/'' r1) (G g)) =
        List.bind (plus_class not_slash cs) (\<lambda>(g, r1). List.bind (lit ''/'' r1) (G (c # g)))
        @ List.bind (lit ''/'' cs) (G [c])"
      using True by (simp add: bind_append bind_map split)
    have tw: "takeWhile not_slash (c # cs) = c # takeWhile not_slash cs"
      and dw: "dropWhile not_slash (c # cs) = dropWhile not_slash cs"
      using True by simp_all
    show ?thesis
    proof (cases "cs = [] \<or> not_slash (hd cs)")
      case False
      then obtain ds where cs: "cs = CHR ''/'' # ds" by (cases cs) (auto simp: not_slash_def)
      have "takeWhile not_slash cs = []" "dropWhile not_slash cs = cs" "plus_class not_slash cs = []"
        by (simp_all add: cs not_slash_def)
      then show ?thesis unfolding step tw dw by (simp add: cs)
    next
      case True
      then have l: "lit ''/'' cs = []" by (cases cs) (auto simp: not_slash_def)
      from True have "cs = [] \<or> takeWhile not_slash cs \<noteq> []" by (cases cs) auto
      then show ?thesis
      proof
        assume "cs = []"
        then show ?thesis unfolding step tw dw by simp
      next
        assume "takeWhile not_slash cs \<noteq> []"
        then have "(case dropWhile not_slash cs of [] \<Rightarrow> []
             | d # r2 \<Rightarrow> if takeWhile not_slash cs = [] then [] else G (c # takeWhile not_slash cs) r2)
           = (case dropWhile not_slash cs of [] \<Rightarrow> [] | d # r2 \<Rightarrow> G (c # takeWhile not_slash cs) r2)"
          by (simp cong: list.case_cong)
        then show ?thesis unfolding step tw dw IH l by (simp cong: list.case_cong)
      qed
    qed
  qed
qed

lemma group2_head:
  "List.bind (plus_class not_slash r) (\<lambda>(g2, r3). List.bind (at_end r3) (\<lambda>_. [f g2])) \<noteq> [] \<Longrightarrow>
   r \<noteq> [] \<and> (\<forall>c\<in>set r. not_slash c) \<and>
   hd (List.bind (plus_class not_slash r) (\<lambda>(g2, r3). List.bind (at_end r3) (\<lambda>_. [f g2]))) = f r"
proof (induction r arbitrary: f)
  case Nil
  then show ?case by simp
next
  case (Cons c cs)
  let ?K = "\<lambda>f. (\<lambda>(g2, r3). List.bind (at_end r3) (\<lambda>_. [f g2]))"
  have P: "not_slash c" using Cons.prems by (auto split: if_splits)
  have split: "(\<lambda>x. ?K f (case x of (m, r) \<Rightarrow> (c # m, r))) = ?K (\<lambda>g. f (c # g))"
    by (auto simp: fun_eq_iff)
  have eq: "List.bind (plus_class not_slash (c # cs)) (?K f) =
      List.bind (plus_class not_slash cs) (?K (\<lambda>g. f (c # g))) @ List.bind (at_end cs) (\<lambda>_. [f [c]])"
    using P by (simp add: bind_append bind_map split)
  show ?case
  proof (cases "List.bind (plus_class not_slash cs) (?K (\<lambda>g. f (c # g))) = []")
    case False
    from Cons.IH [OF False] P show ?thesis unfolding eq using False by auto
  next
    case True
    with Cons.prems eq have ne: "at_end cs \<noteq> []" by auto
    then have "cs = [] \<or> cs = [CHR 0x0A]" by (auto simp: at_end_def split: if_splits)
    then show ?thesis
    proof
      assume "cs = []"
      with P show ?thesis unfolding eq by (simp add: at_end_def)
    next
      assume "cs = [CHR 0x0A]"
      with True show ?thesis by (simp add: at_end_def not_slash_def)
    qed
  qed
qed

lemma group2_run:
  "r \<noteq> [] \<Longrightarrow> \<forall>c\<in>set r. not_slash c \<Longrightarrow>
   \<exists>t. List.bind (plus_class not_slash r) (\<lambda>(g2, r3). List.bind (at_end r3) (\<lambda>_. [f g2])) = f r # t"
proof -
  assume a: "r \<noteq> []" "\<forall>c\<in>set r. not_slash c"
  from plus_class_run [OF a, of "[]"] obtain t where "plus_class not_slash r = (r, []) # t" by auto
  then show ?thesis by (simp add: at_end_def)
qed

lemma owner_name_unfold:
  "owner_name r =
     (case dropWhile not_slash r of [] \<Rightarrow> []
      | c # r2 \<Rightarrow> if takeWhile not_slash r = [] then []
          else List.bind (plus_class not_slash r2)
                 (\<lambda>(g2, r3). List.bind (at_end r3) (\<lambda>_. [(takeWhile not_slash r, g2)])))"
  unfolding owner_name_def
  using plus_then_slash [of r "\<lambda>g1 r2. List.bind (plus_class not_slash r2)
                 (\<lambda>(g2, r3). List.bind (at_end r3) (\<lambda>_. [(g1, g2)]))"]
  by simp

lemma takeWhile_segment:
  "\<forall>c\<in>set xs. not_slash c \<Longrightarrow> takeWhile not_slash (xs @ CHR ''/'' # ys) = xs"
  by (induction xs) (auto simp: not_slash_def)

lemma dropWhile_segment:
  "\<forall>c\<in>set xs. not_slash c \<Longrightarrow> dropWhile not_slash (xs @ CHR ''/'' # ys) = CHR ''/'' # ys"
  by (induction xs) (auto simp: not_slash_def)

lemma owner_name_ok:
  assumes "ow \<noteq> []" "\<forall>c\<in>set ow. not_slash c" "nm \<noteq> []" "\<forall>c\<in>set nm. not_slash c"
  shows "\<exists>t. owner_name (ow @ CHR ''/'' # nm) = (ow, nm) # t"
proof -
  have tw: "takeWhile not_slash (ow @ CHR ''/'' # nm) = ow"
    and dw: "dropWhile not_slash (ow @ CHR ''/'' # nm) = CHR ''/'' # nm"
    using assms(2) by (rule takeWhile_segment, rule dropWhile_segment)
  show ?thesis
    unfolding owner_name_unfold tw dw
    using assms(1) group2_run [OF assms(3,4), of "\<lambda>g2. (ow, g2)"] by simp
qed

lemma owner_name_sound:
  assumes "owner_name r = m # t"
  shows "r = fst m @ CHR ''/'' # snd m \<and> fst m \<noteq> [] \<and> snd m \<noteq> [] \<and>
         (\<forall>c\<in>set (snd m). not_slash c)"
proof -
  obtain c r2 where dw: "dropWhile not_slash r = c # r2" and tw: "takeWhile not_slash r \<noteq> []"
    and b: "List.bind (plus_class not_slash r2)
                 (\<lambda>(g2, r3). List.bind (at_end r3) (\<lambda>_. [(takeWhile not_slash r, g2)])) = m # t"
    using assms unfolding owner_name_unfold by (auto split: list.splits if_splits)
  from group2_head [of r2 "\<lambda>g2. (takeWhile not_slash r, g2)"] b
  have r2: "r2 \<noteq> []" "\<forall>c\<in>set r2. not_slash c" and m: "m = (takeWhile not_slash r, r2)"
    by auto
  have "\<not> not_slash c" using dw by (metis hd_dropWhile list.sel(1) list.distinct(1))
  then have c: "c = CHR ''/''" by (simp add: not_slash_def)
  have "r = takeWhile not_slash r @ dropWhile not_slash r" by simp
  then have "r = takeWhile not_slash r @ CHR ''/'' # r2" unfolding dw c .
  with tw r2 m show ?thesis by simp
qed

lemma lit_mem: "r \<in> set (lit p s) \<Longrightarrow> s = p @ r"
  by (induction p s rule: lit.induct) (auto split: if_splits)

lemma plus_class_mem: "(m, r) \<in> set (plus_class P s) \<Longrightarrow> s = m @ r"
  by (induction s arbitrary: m) (auto split: if_splits)

lemma alt_http_suffix: "r \<in> set (alt_http s) \<Longrightarrow> \<exists>pre. s = pre @ r"
  unfolding alt_http_def opt_lit_def set_list_bind
  by (fastforce dest!: lit_mem plus_class_mem)

lemma alt_git_suffix: "r \<in> set (alt_git s) \<Longrightarrow> \<exists>pre. s = pre @ r"
  unfolding alt_git_def set_list_bind
  by (fastforce dest!: lit_mem plus_class_mem)

lemma bind_hd_mem: "List.bind xs f = y # t \<Longrightarrow> \<exists>x\<in>set xs. \<exists>t'. f x = y # t'"
  by (induction xs) (auto simp: append_eq_Cons_conv)

lemma match_here_sound:
  assumes "match_here s = m # t"
  shows "\<exists>pre. s = pre @ fst m @ CHR ''/'' # snd m \<and> fst m \<noteq> [] \<and> snd m \<noteq> [] \<and>
         (\<forall>c\<in>set (snd m). not_slash c)"
proof -
  from assms obtain r t' where r: "r \<in> set (alt_http s @ alt_git s)" and o: "owner_name r = m # t'"
    unfolding match_here_def by (blast dest: bind_hd_mem)
  from r obtain pre where "s = pre @ r"
    using alt_http_suffix [of r s] alt_git_suffix [of r s] by auto
  with owner_name_sound [OF o] show ?thesis by auto
qed

lemma re_search_sound:
  "re_search s = Some m \<Longrightarrow>
   \<exists>pre. s = pre @ fst m @ CHR ''/'' # snd m \<and> fst m \<noteq> [] \<and> snd m \<noteq> [] \<and>
         (\<forall>c\<in>set (snd m). not_slash c)"
proof (induction s)
  case Nil
  then show ?case by (auto split: list.splits dest: match_here_sound)
next
  case (Cons c cs)
  show ?case
  proof (cases "match_here (c # cs)")
    case Nil
    with Cons.prems have "re_search cs = Some m" by simp
    from Cons.IH [OF this] obtain pre where
      "cs = pre @ fst m @ CHR ''/'' # snd m \<and> fst m \<noteq> [] \<and> snd m \<noteq> [] \<and> (\<forall>c\<in>set (snd m). not_slash c)"
      by blast
    then have "c # cs = (c # pre) @ fst m @ CHR ''/'' # snd m \<and> fst m \<noteq> [] \<and> snd m \<noteq> [] \<and> (\<forall>c\<in>set (snd m). not_slash c)"
      by simp
    then show ?thesis by blast
  next
    case (Cons m' t)
    with Cons.prems have "m' = m" by simp
    with Cons show ?thesis using match_here_sound by blast
  qed
qed

lemma re_search_here: "match_here s = m # t \<Longrightarrow> re_search s = Some m"
  by (cases s) auto

lemma final_segment_append:
  "\<forall>c\<in>set nm. not_slash c \<Longrightarrow> final_segment (pre @ CHR ''/'' # nm) = nm"
  unfolding final_segment_def
  using takeWhile_segment [of "rev nm" "rev pre"] by simp

lemma re_search_final_segment:
  "re_search s = Some (ow, nm) \<Longrightarrow> nm = final_segment s \<and> ow \<noteq> [] \<and> nm \<noteq> []"
  using re_search_sound [of s "(ow, nm)"] final_segment_append [of nm]
  by (metis append.assoc fst_conv snd_conv)

lemma bind_return: "List.bind xs (\<lambda>x. [x]) = xs"
  by (induction xs) auto

lemma alt_http_ok:
  assumes "scheme = ''http'' \<or> scheme = ''https''" "host \<noteq> []" "\<forall>c\<in>set host. not_slash c"
  shows "\<exists>t. alt_http (scheme @ ''://'' @ host @ CHR ''/'' # r) = r # t"
proof -
  have tw: "takeWhile not_slash (host @ CHR ''/'' # r) = host"
    and dw: "dropWhile not_slash (host @ CHR ''/'' # r) = CHR ''/'' # r"
    using assms(3) by (rule takeWhile_segment, rule dropWhile_segment)
  have "List.bind (plus_class not_slash (host @ CHR ''/'' # r))
          (\<lambda>(h, r3). List.bind (lit ''/'' r3) (\<lambda>r2. [r2])) = [r]"
    unfolding plus_then_slash tw dw using assms(2) by simp
  then have "List.bind (plus_class not_slash (host @ CHR ''/'' # r)) (\<lambda>(h, r3). lit ''/'' r3) = [r]"
    by (simp add: bind_return)
  with assms(1) show ?thesis
    unfolding alt_http_def opt_lit_def by auto
qed

lemma alt_git_ok:
  assumes "host \<noteq> []" "\<forall>c\<in>set host. host_char c"
  shows "\<exists>t. alt_git (''git@'' @ host @ CHR '':'' # r) = r # t"
proof -
  have "\<not> host_char CHR '':''" by (simp add: host_char_def word_char_def)
  with plus_class_run [OF assms, of "CHR '':'' # r"] obtain t
    where "plus_class host_char (host @ CHR '':'' # r) = (host, CHR '':'' # r) # t" by auto
  then show ?thesis unfolding alt_git_def by simp
qed

lemma alt_http_git: "alt_http (''git@'' @ r) = []"
  by (simp add: alt_http_def)


lemma parse_http_shape:
  assumes "scheme = ''http'' \<or> scheme = ''https''" "host \<noteq> []" "\<forall>c\<in>set host. not_slash c"
    "ow \<noteq> []" "\<forall>c\<in>set ow. not_slash c" "nm \<noteq> []" "\<forall>c\<in>set nm. not_slash c"
  shows "re_search (scheme @ ''://'' @ host @ CHR ''/'' # ow @ CHR ''/'' # nm) = Some (ow, nm)"
proof -
  from alt_http_ok [OF assms(1-3)] obtain t where
    "alt_http (scheme @ ''://'' @ host @ CHR ''/'' # ow @ CHR ''/'' # nm) = (ow @ CHR ''/'' # nm) # t"
    by blast
  moreover from owner_name_ok [OF assms(4-7)] obtain t' where
    "owner_name (ow @ CHR ''/'' # nm) = (ow, nm) # t'" by blast
  ultimately have "\<exists>t''. match_here (scheme @ ''://'' @ host @ CHR ''/'' # ow @ CHR ''/'' # nm) = (ow, nm) # t''"
    unfolding match_here_def by simp
  then show ?thesis using re_search_here by blast
qed

lemma parse_git_shape:
  assumes "host \<noteq> []" "\<forall>c\<in>set host. host_char c"
    "ow \<noteq> []" "\<forall>c\<in>set ow. not_slash c" "nm \<noteq> []" "\<forall>c\<in>set nm. not_slash c"
  shows "re_search (''git@'' @ host @ CHR '':'' # ow @ CHR ''/'' # nm) = Some (ow, nm)"
proof -
  from alt_git_ok [OF assms(1-2)] obtain t where
    "alt_git (''git@'' @ host @ CHR '':'' # ow @ CHR ''/'' # nm) = (ow @ CHR ''/'' # nm) # t"
    by blast
  moreover from owner_name_ok [OF assms(3-6)] obtain t' where
    "owner_name (ow @ CHR ''/'' # nm) = (ow, nm) # t'" by blast
  moreover have "alt_http (''git@'' @ host @ CHR '':'' # ow @ CHR ''/'' # nm) = []"
    by (rule alt_http_git)
  ultimately have "\<exists>t''. match_here (''git@'' @ host @ CHR '':'' # ow @ CHR ''/'' # nm) = (ow, nm) # t''"
    unfolding match_here_def by simp
  then show ?thesis using re_search_here by blast
qed



section \<open>Claims about the parser\<close>

lemma endswith_git_split: "endswith s ''.git'' \<Longrightarrow> s = take (length s - 4) s @ ''.git''"
proof -
  assume "endswith s ''.git''"
  then have "drop (length s - 4) s = ''.git''" by (simp add: endswith_def eval_nat_numeral)
  then show ?thesis by (metis append_take_drop_id)
qed

lemma not_slash_set: "CHR ''/'' \<notin> set xs \<Longrightarrow> \<forall>c\<in>set xs. not_slash c"
  by (auto simp: not_slash_def)

text \<open>
  Each alternative of the expression begins with a literal, so nothing is recognised
  in a string in which neither \<open>http\<close> nor \<open>git@\<close> occurs.
\<close>

lemma lit_not_startswith: "\<not> startswith s p \<Longrightarrow> lit p s = []"
  by (induction p s rule: lit.induct) (auto simp: startswith_def)

lemma match_here_unmarked:
  "\<not> startswith s ''http'' \<Longrightarrow> \<not> startswith s ''git@'' \<Longrightarrow> match_here s = []"
  by (simp add: match_here_def alt_http_def alt_git_def lit_not_startswith)

lemma re_search_unmarked:
  "\<not> contains s ''http'' \<Longrightarrow> \<not> contains s ''git@'' \<Longrightarrow> re_search s = None"
proof (induction s)
  case Nil
  then show ?case by (simp add: match_here_def alt_http_def alt_git_def)
next
  case (Cons c cs)
  then have "match_here (c # cs) = []" by (intro match_here_unmarked) simp_all
  with Cons show ?case by simp
qed

lemma parse_unmarked:
  "\<not> contains v ''http'' \<and> \<not> contains v ''git@'' \<Longrightarrow> parse_repo_url v = (None, None)"
  by (simp add: parse_repo_url_def re_search_unmarked)

text \<open>The model on the URLs of the repository's own test suite.\<close>

lemma test_valid_urls:
  "parse_repo_url ''https://github.com/anotherowner/anotherrepo'' = (Some ''anotherowner'', Some ''anotherrepo'')"
  "parse_repo_url ''git@github.com:owner/repo'' = (Some ''owner'', Some ''repo'')"
  "parse_repo_url ''https://github.com/owner-123/repo-name-456.git'' = (Some ''owner-123'', Some ''repo-name-456'')"
  "parse_repo_url ''https://gitlab.com/gitlabowner/gitlabrepo.git'' = (Some ''gitlabowner'', Some ''gitlabrepo'')"
  "parse_repo_url ''https://github.com/testowner/my.repo'' = (Some ''testowner'', Some ''my.repo'')"
  by (simp_all add: parse_repo_url_def match_here_def alt_http_def alt_git_def owner_name_def
        opt_lit_def not_slash_def host_char_def word_char_def at_end_def endswith_def)

text \<open>
  \<open>re.search\<close> is not anchored at the start: a recognised form may follow any prefix.
\<close>

lemma test_unanchored:
  "parse_repo_url ''git+https://github.com/owner/repo.git'' = (Some ''owner'', Some ''repo'')"
  "parse_repo_url ''mygit@github.com:owner/repo.git'' = (Some ''owner'', Some ''repo'')"
  by (simp_all add: parse_repo_url_def match_here_def alt_http_def alt_git_def owner_name_def
        opt_lit_def not_slash_def host_char_def word_char_def at_end_def endswith_def)

lemma test_invalid_urls:
  "parse_repo_url ''https://github.com/owneronly'' = (None, None)"
  "parse_repo_url ''JustARandomString'' = (None, None)"
  "parse_repo_url ''https/github.com/owner/repo.git'' = (None, None)"
  "parse_repo_url ''https://github.com/'' = (None, None)"
  "parse_repo_url ''git@github.com'' = (None, None)"
  "parse_repo_url ''git@github.com:'' = (None, None)"
  "parse_repo_url ''git@github.com:/'' = (None, None)"
  by (simp_all add: parse_repo_url_def match_here_def alt_http_def alt_git_def owner_name_def
        opt_lit_def not_slash_def host_char_def word_char_def at_end_def endswith_def)

text \<open>
  Claim C4, as amended. For the schemes \<open>http\<close> and \<open>https\<close>, any non-empty host
  without a slash and non-empty segments \<open>O\<close> and \<open>N\<close> without a slash, the parser
  returns \<open>(O, N)\<close> on \<open>scheme://host/O/N.git\<close>, and on \<open>scheme://host/O/N\<close> when
  \<open>N\<close> does not itself end in \<open>.git\<close>. The scheme is not arbitrary: every URL in
  which neither the text \<open>http\<close> nor the text \<open>git@\<close> occurs yields
  \<open>(None, None)\<close>.
\<close>

theorem parse_http_url:
  assumes "scheme = ''http'' \<or> scheme = ''https''"
    and "host \<noteq> []" and "CHR ''/'' \<notin> set host"
    and "ow \<noteq> []" and "CHR ''/'' \<notin> set ow"
    and "nm \<noteq> []" and "CHR ''/'' \<notin> set nm"
  shows "parse_repo_url (scheme @ ''://'' @ host @ ''/'' @ ow @ ''/'' @ nm @ ''.git'')
           = (Some ow, Some nm)
       \<and> (\<not> endswith nm ''.git'' \<longrightarrow>
            parse_repo_url (scheme @ ''://'' @ host @ ''/'' @ ow @ ''/'' @ nm) = (Some ow, Some nm))
       \<and> (\<not> contains v ''http'' \<and> \<not> contains v ''git@'' \<longrightarrow>
            parse_repo_url v = (None, None))"
proof -
  have git: "\<forall>c\<in>set (nm @ ''.git''). not_slash c"
    using assms(7) by (auto simp: not_slash_def)
  have "re_search (scheme @ ''://'' @ host @ CHR ''/'' # ow @ CHR ''/'' # (nm @ ''.git''))
          = Some (ow, nm @ ''.git'')"
    using assms git by (intro parse_http_shape not_slash_set) simp_all
  then have a: "parse_repo_url (scheme @ ''://'' @ host @ ''/'' @ ow @ ''/'' @ nm @ ''.git'')
           = (Some ow, Some nm)"
    by (simp add: parse_repo_url_def endswith_def)
  have "re_search (scheme @ ''://'' @ host @ CHR ''/'' # ow @ CHR ''/'' # nm) = Some (ow, nm)"
    using assms by (intro parse_http_shape not_slash_set) simp_all
  then have b: "\<not> endswith nm ''.git'' \<Longrightarrow>
      parse_repo_url (scheme @ ''://'' @ host @ ''/'' @ ow @ ''/'' @ nm) = (Some ow, Some nm)"
    by (simp add: parse_repo_url_def)
  from a b parse_unmarked [of v] show ?thesis by blast
qed

text \<open>The theorem at the URLs of the repository's tests.\<close>

theorem parse_http_url_witness:
  "parse_repo_url ''https://github.com/testowner/testrepo.git'' = (Some ''testowner'', Some ''testrepo'')
   \<and> parse_repo_url ''https://github.com/testowner/testrepo'' = (Some ''testowner'', Some ''testrepo'')
   \<and> parse_repo_url ''svn://example.org/a/b'' = (None, None)"
  using parse_http_url [of "''https''" "''github.com''" "''testowner''" "''testrepo''"
                          "''svn://example.org/a/b''"]
  by (simp add: endswith_def startswith_def)

text \<open>
  Claim C4 as stated (any scheme) fails: an \<open>ftp\<close> URL of the same shape is not
  recognised, as the repository's test of invalid URLs expects.
\<close>

theorem parse_other_scheme_counterexample:
  "parse_repo_url ''ftp://github.com/owner/repo.git'' = (None, None)
   \<and> parse_repo_url ''ftp://github.com/owner/repo.git'' \<noteq> (Some ''owner'', Some ''repo'')"
  by (simp add: parse_repo_url_def match_here_def alt_http_def alt_git_def)

text \<open>
  Claim C5, as amended. For the user \<open>git\<close>, any non-empty host made of word
  characters, dots and hyphens, and non-empty segments \<open>O\<close> and \<open>N\<close> without a slash,
  the parser returns \<open>(O, N)\<close> on \<open>git@host:O/N.git\<close>, and on \<open>git@host:O/N\<close> when \<open>N\<close>
  does not itself end in \<open>.git\<close>: the same result as for the scheme form. The user is
  not arbitrary: every URL in which neither the text \<open>git@\<close> nor the text \<open>http\<close>
  occurs yields \<open>(None, None)\<close>.
\<close>

theorem parse_git_at_url:
  assumes "host \<noteq> []" and "\<forall>c\<in>set host. host_char c"
    and "ow \<noteq> []" and "CHR ''/'' \<notin> set ow"
    and "nm \<noteq> []" and "CHR ''/'' \<notin> set nm"
  shows "parse_repo_url (''git@'' @ host @ '':'' @ ow @ ''/'' @ nm @ ''.git'') = (Some ow, Some nm)
       \<and> (\<not> endswith nm ''.git'' \<longrightarrow>
            parse_repo_url (''git@'' @ host @ '':'' @ ow @ ''/'' @ nm) = (Some ow, Some nm))
       \<and> (\<not> contains v ''git@'' \<and> \<not> contains v ''http'' \<longrightarrow>
            parse_repo_url v = (None, None))"
proof -
  have git: "\<forall>c\<in>set (nm @ ''.git''). not_slash c"
    using assms(6) by (auto simp: not_slash_def)
  have "re_search (''git@'' @ host @ CHR '':'' # ow @ CHR ''/'' # (nm @ ''.git''))
          = Some (ow, nm @ ''.git'')"
    using assms git by (intro parse_git_shape not_slash_set) simp_all
  then have a: "parse_repo_url (''git@'' @ host @ '':'' @ ow @ ''/'' @ nm @ ''.git'')
           = (Some ow, Some nm)"
    by (simp add: parse_repo_url_def endswith_def)
  have "re_search (''git@'' @ host @ CHR '':'' # ow @ CHR ''/'' # nm) = Some (ow, nm)"
    using assms by (intro parse_git_shape not_slash_set) simp_all
  then have b: "\<not> endswith nm ''.git'' \<Longrightarrow>
      parse_repo_url (''git@'' @ host @ '':'' @ ow @ ''/'' @ nm) = (Some ow, Some nm)"
    by (simp add: parse_repo_url_def)
  from a b parse_unmarked [of v] show ?thesis by blast
qed

text \<open>The theorem at the URL of the repository's test.\<close>

theorem parse_git_at_url_witness:
  "parse_repo_url ''git@github.com:sshowner/sshrepo.git'' = (Some ''sshowner'', Some ''sshrepo'')
   \<and> parse_repo_url ''git@github.com:sshowner/sshrepo'' = (Some ''sshowner'', Some ''sshrepo'')
   \<and> parse_repo_url ''bob@example.org:a/b'' = (None, None)"
  using parse_git_at_url [of "''github.com''" "''sshowner''" "''sshrepo''" "''bob@example.org:a/b''"]
  by (simp add: endswith_def host_char_def word_char_def startswith_def)

text \<open>
  Claim C5 as stated (any user) fails: with a user other than \<open>git\<close> nothing is
  recognised.
\<close>

theorem parse_other_user_counterexample:
  "parse_repo_url ''alice@github.com:owner/repo.git'' = (None, None)
   \<and> parse_repo_url ''alice@github.com:owner/repo.git'' \<noteq> (Some ''owner'', Some ''repo'')"
  by (simp add: parse_repo_url_def match_here_def alt_http_def alt_git_def)

text \<open>
  Claim C6. Whenever a URL is recognised, the name returned is the final path segment
  with only a final \<open>.git\<close> removed: if the segment ends in \<open>.git\<close>, it is the name
  followed by \<open>.git\<close>, so every other character, dots included, is kept; otherwise the
  name is the segment unchanged.
\<close>

theorem parse_name_keeps_dots:
  assumes "parse_repo_url u = (Some ow, Some nm)"
  shows "(endswith (final_segment u) ''.git'' \<longrightarrow> final_segment u = nm @ ''.git'')
       \<and> (\<not> endswith (final_segment u) ''.git'' \<longrightarrow> nm = final_segment u)"
proof -
  from assms obtain g1 g2 where s: "re_search u = Some (g1, g2)"
    and nm: "nm = (if endswith g2 ''.git'' then take (length g2 - 4) g2 else g2)"
    by (auto simp: parse_repo_url_def split: option.splits)
  from re_search_final_segment [OF s] have g2: "g2 = final_segment u" by simp
  show ?thesis using nm endswith_git_split [of g2] unfolding g2 by auto
qed

text \<open>The theorem at a name with inner dots.\<close>

theorem parse_name_keeps_dots_witness:
  "parse_repo_url ''https://github.com/testowner/my.repo.name.git''
     = (Some ''testowner'', Some ''my.repo.name'')
   \<and> final_segment ''https://github.com/testowner/my.repo.name.git'' = ''my.repo.name'' @ ''.git''"
proof -
  have p: "parse_repo_url ''https://github.com/testowner/my.repo.name.git''
     = (Some ''testowner'', Some ''my.repo.name'')"
    by (simp add: parse_repo_url_def match_here_def alt_http_def alt_git_def owner_name_def
          opt_lit_def not_slash_def at_end_def endswith_def)
  have e: "endswith (final_segment ''https://github.com/testowner/my.repo.name.git'') ''.git''"
    by (simp add: final_segment_def endswith_def not_slash_def)
  from parse_name_keeps_dots [OF p] e p show ?thesis by blast
qed

section \<open>Properties of the state store and of cloning\<close>

lemma temp_dir_nonempty: "mkdtemp_path root rnd \<noteq> []"
  by (simp add: mkdtemp_path_def os_path_join_def startswith_def)

lemma save_state_active: "active_repo_details (save_state wo w) = active_repo_details w"
  by (cases wo) (simp_all add: save_state_def)

lemma save_state_dirs: "dirs (save_state wo w) = dirs w"
  by (cases wo) (simp_all add: save_state_def)

lemma save_state_file:
  "state_file (save_state wo w) =
     (case wo of Written \<Rightarrow> Stored (active_repo_details w)
      | OpenFailed \<Rightarrow> state_file w | WriteTorn \<Rightarrow> Unparseable)"
  by (cases wo) (simp_all add: save_state_def)

lemma cleanup_previous_state_file: "state_file (cleanup_previous env w) = state_file w"
  by (auto simp: cleanup_previous_def rmtree_def split: option.splits rm_outcome.splits)

lemma cleanup_temp_active: "active_repo_details (cleanup_temp ro t w) = active_repo_details w"
  by (auto simp: cleanup_temp_def rmtree_def split: rm_outcome.splits)

lemma cleanup_temp_state_file: "state_file (cleanup_temp ro t w) = state_file w"
  by (auto simp: cleanup_temp_def rmtree_def split: rm_outcome.splits)

lemma cleanup_temp_dirs: "dirs (cleanup_temp ro t w) \<subseteq> dirs w"
  by (auto simp: cleanup_temp_def rmtree_def split: rm_outcome.splits)

lemma cleanup_temp_removed: "t \<noteq> [] \<Longrightarrow> t \<notin> dirs (cleanup_temp Removed t w)"
  by (auto simp: cleanup_temp_def rmtree_def os_path_exists_def os_path_isdir_def below_def)

lemma clone_prepare_active: "active_repo_details (clone_prepare env w) = empty_details"
  by (simp add: clone_prepare_def save_state_active)

lemma clone_prepare_state_file:
  "state_file (clone_prepare env w) =
     (case save_cleared env of Written \<Rightarrow> Stored empty_details
      | OpenFailed \<Rightarrow> state_file w | WriteTorn \<Rightarrow> Unparseable)"
  by (cases "save_cleared env")
     (simp_all add: clone_prepare_def save_state_file cleanup_previous_state_file)

lemma clone_prepare_removes:
  assumes "path (active_repo_details w) = Some d" and "d \<noteq> []" and "d \<in> dirs w"
    and "rm_previous env = Removed"
  shows "d \<notin> dirs (clone_prepare env w)"
  using assms
  by (simp add: clone_prepare_def save_state_dirs cleanup_previous_def rmtree_def
        os_path_exists_def os_path_isdir_def below_def)

lemma attempt_created:
  assumes "mkdtemp env = TempCreated root rnd"
  shows "clone_attempt env u w =
     (let temp_dir = mkdtemp_path root rnd; w1 = w\<lparr>dirs := insert temp_dir (dirs w)\<rparr>
      in case git_clone env of
           Completed returncode out err \<Rightarrow>
             if returncode = 0 then
               (clone_success_message u temp_dir (fst (parse_repo_url u)) (snd (parse_repo_url u)),
                save_state (save_cloned env)
                  (w1\<lparr>active_repo_details :=
                        \<lparr>path = Some temp_dir, url = Some u,
                         owner = fst (parse_repo_url u), name = snd (parse_repo_url u)\<rparr>\<rparr>))
             else (case rmtree (rm_temp env) temp_dir w1 of
                     Inr w2 \<Rightarrow> (''Error cloning repository: '' @ err, w2)
                   | Inl e \<Rightarrow> (''An unexpected error occurred during clone: '' @ e,
                               cleanup_temp (rm_temp env) temp_dir w1))
         | CalledProcessError out err txt \<Rightarrow>
             (''Error cloning repository '' @ u @ '': '' @ (if err \<noteq> [] then err else txt),
              cleanup_temp (rm_temp env) temp_dir w1)
         | FileNotFoundError \<Rightarrow> (GIT_NOT_FOUND, w1)
         | OtherException e \<Rightarrow>
             (''An unexpected error occurred during clone: '' @ e,
              cleanup_temp (rm_temp env) temp_dir w1))"
  using assms
  by (simp add: clone_attempt_def make_temp_dir_def Let_def temp_dir_nonempty os_path_exists_def
        split: run_result.splits prod.splits)

text \<open>What a clone attempt that fails does to a world whose session is already cleared.\<close>

lemma attempt_not_created:
  assumes "\<And>root rnd. mkdtemp env \<noteq> TempCreated root rnd"
  shows "snd (clone_attempt env u w) = w"
    and "fst (clone_attempt env u w) = GIT_NOT_FOUND
       \<or> (\<exists>e. fst (clone_attempt env u w) = ''An unexpected error occurred during clone: '' @ e)"
  using assms
  by (cases "mkdtemp env"; simp add: clone_attempt_def make_temp_dir_def)+

lemma rmtree_keeps:
  "rmtree ro t w = Inr w2 \<Longrightarrow>
     active_repo_details w2 = active_repo_details w \<and> state_file w2 = state_file w"
  by (auto simp: rmtree_def split: rm_outcome.splits if_splits)

lemma failed_attempt_active:
  assumes "clone_failed env"
  shows "active_repo_details (snd (clone_attempt env u w)) = active_repo_details w"
proof (cases "mkdtemp env")
  case (TempCreated root rnd)
  show ?thesis
  proof (cases "git_clone env")
    case (Completed returncode out err)
    with assms TempCreated have "returncode \<noteq> 0" by (simp add: clone_failed_def)
    with Completed show ?thesis
      by (cases "rmtree (rm_temp env) (mkdtemp_path root rnd)
                   (w\<lparr>dirs := insert (mkdtemp_path root rnd) (dirs w)\<rparr>)")
         (simp_all add: attempt_created [OF TempCreated] Let_def cleanup_temp_active rmtree_keeps)
  qed (simp_all add: attempt_created [OF TempCreated] Let_def cleanup_temp_active)
qed (simp_all add: attempt_not_created(1))

lemma failed_attempt_state_file:
  assumes "clone_failed env"
  shows "state_file (snd (clone_attempt env u w)) = state_file w"
proof (cases "mkdtemp env")
  case (TempCreated root rnd)
  show ?thesis
  proof (cases "git_clone env")
    case (Completed returncode out err)
    with assms TempCreated have "returncode \<noteq> 0" by (simp add: clone_failed_def)
    with Completed show ?thesis
      by (cases "rmtree (rm_temp env) (mkdtemp_path root rnd)
                   (w\<lparr>dirs := insert (mkdtemp_path root rnd) (dirs w)\<rparr>)")
         (simp_all add: attempt_created [OF TempCreated] Let_def cleanup_temp_state_file
            rmtree_keeps)
  qed (simp_all add: attempt_created [OF TempCreated] Let_def cleanup_temp_state_file)
qed (simp_all add: attempt_not_created(1))

lemma failed_attempt_text:
  assumes "clone_failed env"
  shows "startswith (fst (clone_attempt env u w)) ''Error''
       \<or> startswith (fst (clone_attempt env u w)) ''An unexpected error occurred during clone: ''"
proof (cases "mkdtemp env")
  case (TempCreated root rnd)
  show ?thesis
  proof (cases "git_clone env")
    case (Completed returncode out err)
    with assms TempCreated have "returncode \<noteq> 0" by (simp add: clone_failed_def)
    with Completed show ?thesis
      by (cases "rmtree (rm_temp env) (mkdtemp_path root rnd)
                   (w\<lparr>dirs := insert (mkdtemp_path root rnd) (dirs w)\<rparr>)")
         (simp_all add: attempt_created [OF TempCreated] Let_def startswith_def)
  qed (simp_all add: attempt_created [OF TempCreated] Let_def startswith_def GIT_NOT_FOUND_def)
next
  case TempFileNotFound
  then show ?thesis
    by (simp add: clone_attempt_def make_temp_dir_def startswith_def GIT_NOT_FOUND_def)
next
  case (TempError e)
  then show ?thesis
    by (simp add: clone_attempt_def make_temp_dir_def startswith_def)
qed

lemma rmtree_removed:
  "rmtree ro t w = Inr w2 \<Longrightarrow> t \<notin> dirs w2 \<and> dirs w2 \<subseteq> dirs w"
  by (auto simp: rmtree_def below_def split: rm_outcome.splits if_splits)

lemma rmtree_Removed: "t \<in> dirs w \<Longrightarrow> \<exists>w2. rmtree Removed t w = Inr w2"
  by (simp add: rmtree_def os_path_isdir_def)

lemma failed_attempt_temp_dir:
  assumes "clone_failed env" and "mkdtemp env = TempCreated root rnd"
    and "git_clone env \<noteq> FileNotFoundError" and "rm_temp env = Removed"
  shows "mkdtemp_path root rnd \<notin> dirs (snd (clone_attempt env u w))"
proof -
  let ?t = "mkdtemp_path root rnd"
  let ?w1 = "w\<lparr>dirs := insert ?t (dirs w)\<rparr>"
  have c: "?t \<notin> dirs (cleanup_temp Removed ?t ?w1)"
    by (rule cleanup_temp_removed) (rule temp_dir_nonempty)
  obtain w2 where r: "rmtree Removed ?t ?w1 = Inr w2"
    using rmtree_Removed [of ?t ?w1] by auto
  then have "?t \<notin> dirs w2" by (simp add: rmtree_removed)
  with assms c r show ?thesis
    by (cases "git_clone env") (simp_all add: attempt_created [OF assms(2)] Let_def clone_failed_def)
qed

lemma attempt_dirs:
  "dirs (snd (clone_attempt env u w)) \<subseteq>
     (case mkdtemp env of TempCreated root rnd \<Rightarrow> insert (mkdtemp_path root rnd) (dirs w)
      | _ \<Rightarrow> dirs w)"
proof (cases "mkdtemp env")
  case (TempCreated root rnd)
  define t where "t = mkdtemp_path root rnd"
  define w1 where "w1 = w\<lparr>dirs := insert t (dirs w)\<rparr>"
  have w1: "dirs w1 = insert t (dirs w)" by (simp add: w1_def)
  have c: "dirs (cleanup_temp (rm_temp env) t w1) \<subseteq> insert t (dirs w)"
    using cleanup_temp_dirs [of "rm_temp env" t w1] by (simp add: w1)
  have goal: "dirs (snd (clone_attempt env u w)) \<subseteq> insert t (dirs w)"
  proof (cases "git_clone env")
    case (Completed returncode out err)
    show ?thesis
    proof (cases "returncode = 0")
      case True
      with Completed show ?thesis
        by (simp add: attempt_created [OF TempCreated] Let_def save_state_dirs t_def)
    next
      case False
      show ?thesis
      proof (cases "rmtree (rm_temp env) t w1")
        case (Inl e)
        with Completed False c show ?thesis
          by (simp add: attempt_created [OF TempCreated] Let_def t_def w1_def)
      next
        case (Inr w2)
        then have "dirs w2 \<subseteq> insert t (dirs w)"
          using rmtree_removed [of "rm_temp env" t w1 w2] by (simp add: w1)
        with Completed False Inr show ?thesis
          by (simp add: attempt_created [OF TempCreated] Let_def t_def w1_def)
      qed
    qed
  next
    case (CalledProcessError out err cause)
    with c show ?thesis
      by (simp add: attempt_created [OF TempCreated] Let_def t_def w1_def)
  next
    case FileNotFoundError
    then show ?thesis
      by (simp add: attempt_created [OF TempCreated] Let_def t_def)
  next
    case (OtherException e)
    with c show ?thesis
      by (simp add: attempt_created [OF TempCreated] Let_def t_def w1_def)
  qed
  then show ?thesis by (simp add: TempCreated t_def)
next
  case TempFileNotFound
  then show ?thesis by (simp add: clone_attempt_def make_temp_dir_def)
next
  case (TempError e)
  then show ?thesis by (simp add: clone_attempt_def make_temp_dir_def)
qed

lemma attempt_stored_path:
  assumes "stored_path (state_file w) \<noteq> Some d"
    and "\<forall>root rnd. mkdtemp env = TempCreated root rnd \<longrightarrow> mkdtemp_path root rnd \<noteq> d"
  shows "stored_path (state_file (snd (clone_attempt env u w))) \<noteq> Some d"
proof (cases "clone_failed env")
  case True
  then show ?thesis using assms(1) by (simp add: failed_attempt_state_file)
next
  case False
  then obtain root rnd out err where m: "mkdtemp env = TempCreated root rnd"
    and g: "git_clone env = Completed 0 out err"
    by (auto simp: clone_failed_def split: mkdtemp_outcome.splits run_result.splits)
  with assms show ?thesis
    by (cases "save_cloned env")
       (simp_all add: attempt_created [OF m] Let_def save_state_file stored_path_def)
qed

text \<open>The state file after a clone attempt, in each case.\<close>

lemma attempt_state_file:
  "state_file (snd (clone_attempt env u w)) = state_file w
   \<or> state_file (snd (clone_attempt env u w)) = Unparseable
   \<or> (\<exists>root rnd. mkdtemp env = TempCreated root rnd
        \<and> state_file (snd (clone_attempt env u w))
            = Stored \<lparr>path = Some (mkdtemp_path root rnd), url = Some u,
                      owner = fst (parse_repo_url u), name = snd (parse_repo_url u)\<rparr>)"
proof (cases "clone_failed env")
  case True
  then show ?thesis by (simp add: failed_attempt_state_file)
next
  case False
  then obtain root rnd out err where m: "mkdtemp env = TempCreated root rnd"
    and g: "git_clone env = Completed 0 out err"
    by (auto simp: clone_failed_def split: mkdtemp_outcome.splits run_result.splits)
  then show ?thesis
    by (cases "save_cloned env")
       (simp_all add: attempt_created [OF m] Let_def save_state_file)
qed

section \<open>Claims about the state store and cloning\<close>

text \<open>
  Claim C7. A record with a path, once written to the state file, is read back
  unchanged by a fresh process if the directory of its path exists then; if that
  directory does not exist, the fresh process starts with all four fields absent.
\<close>

theorem save_then_load:
  assumes "path r = Some p" and "p \<noteq> []"
  shows "(p \<in> d \<longrightarrow>
            active_repo_details
              (process_start ((save_state Written (w\<lparr>active_repo_details := r\<rparr>))
                                \<lparr>dirs := d, files := f\<rparr>)) = r)
       \<and> (p \<notin> d \<longrightarrow>
            active_repo_details
              (process_start ((save_state Written (w\<lparr>active_repo_details := r\<rparr>))
                                \<lparr>dirs := d, files := f\<rparr>)) = empty_details)"
  using assms
  by (simp add: process_start_def load_state_def save_state_def os_path_isdir_def)

text \<open>The theorem at the example record, with its directory present and absent.\<close>

theorem save_then_load_witness:
  "active_repo_details
     (process_start ((save_state Written (example_world\<lparr>active_repo_details := example_details\<rparr>))
                       \<lparr>dirs := {''/tmp/mcp_clone_old''}, files := Map.empty\<rparr>)) = example_details
   \<and> active_repo_details
     (process_start ((save_state Written (example_world\<lparr>active_repo_details := example_details\<rparr>))
                       \<lparr>dirs := {}, files := Map.empty\<rparr>)) = empty_details"
  using save_then_load [where r = example_details and p = "''/tmp/mcp_clone_old''"
                          and d = "{''/tmp/mcp_clone_old''}" and w = example_world
                          and f = Map.empty]
        save_then_load [where r = example_details and p = "''/tmp/mcp_clone_old''"
                          and d = "{}" and w = example_world and f = Map.empty]
  by (simp add: example_details_def)

text \<open>
  Claim C1, as amended. In every call of the clone operation, the world in which the
  temporary directory is then created and the clone command run has the session reset
  to four absent fields; \<open>_save_state\<close> has been called on it, and when that write
  succeeded the state file holds the empty record, during the whole clone command.
  Unless the state file could not be opened for that write, it names no directory
  then. A write that fails is only logged.
\<close>

theorem clone_resets_first:
  "clone_repository env u w = clone_attempt env u (clone_prepare env w)
   \<and> active_repo_details (clone_prepare env w) = empty_details
   \<and> (save_cleared env = Written \<longrightarrow> state_file (clone_prepare env w) = Stored empty_details)
   \<and> (save_cleared env \<noteq> OpenFailed \<longrightarrow> stored_path (state_file (clone_prepare env w)) = None)
   \<and> (\<forall>temp_dir w1. make_temp_dir (mkdtemp env) (clone_prepare env w) = Inr (temp_dir, w1) \<longrightarrow>
         active_repo_details w1 = empty_details
         \<and> state_file w1 = state_file (clone_prepare env w))"
proof -
  have a: "save_cleared env \<noteq> OpenFailed \<longrightarrow> stored_path (state_file (clone_prepare env w)) = None"
    by (cases "save_cleared env")
       (simp_all add: clone_prepare_state_file stored_path_def empty_details_def)
  have b: "\<forall>temp_dir w1. make_temp_dir (mkdtemp env) (clone_prepare env w) = Inr (temp_dir, w1) \<longrightarrow>
         active_repo_details w1 = empty_details
         \<and> state_file w1 = state_file (clone_prepare env w)"
    by (cases "mkdtemp env") (auto simp: make_temp_dir_def Let_def clone_prepare_active)
  from a b show ?thesis
    by (simp add: clone_repository_def clone_prepare_active clone_prepare_state_file)
qed

text \<open>The theorem at the example state, where the write succeeds.\<close>

theorem clone_resets_first_witness:
  "save_cleared example_env = Written
   \<and> state_file (clone_prepare example_env example_world) = Stored empty_details
   \<and> make_temp_dir (mkdtemp example_env) (clone_prepare example_env example_world)
       = Inr (''/tmp/mcp_clone_k3x9'',
              (clone_prepare example_env example_world)
                \<lparr>dirs := insert ''/tmp/mcp_clone_k3x9'' (dirs (clone_prepare example_env example_world))\<rparr>)
   \<and> state_file ((clone_prepare example_env example_world)
                \<lparr>dirs := insert ''/tmp/mcp_clone_k3x9'' (dirs (clone_prepare example_env example_world))\<rparr>)
       = Stored empty_details"
proof -
  have s: "save_cleared example_env = Written" by (simp add: example_env_def)
  have m: "make_temp_dir (mkdtemp example_env) (clone_prepare example_env example_world)
       = Inr (''/tmp/mcp_clone_k3x9'',
              (clone_prepare example_env example_world)
                \<lparr>dirs := insert ''/tmp/mcp_clone_k3x9'' (dirs (clone_prepare example_env example_world))\<rparr>)"
    by (simp add: example_env_def make_temp_dir_def mkdtemp_path_def os_path_join_def
          startswith_def endswith_def Let_def)
  from clone_resets_first [of example_env "''https://github.com/a/b.git''" example_world] s m
  show ?thesis by simp
qed

text \<open>
  Claim C1 as stated fails when the write of the cleared state fails: the state file
  still names the previous directory before, during and after the clone command.
\<close>

theorem clone_resets_first_counterexample:
  "state_file (clone_prepare (example_env\<lparr>save_cleared := OpenFailed\<rparr>) example_world)
     = Stored example_details
   \<and> path example_details = Some ''/tmp/mcp_clone_old''
   \<and> state_file (snd (clone_repository
         (example_env\<lparr>save_cleared := OpenFailed, git_clone := not_found_result\<rparr>)
         ''https://github.com/a/b.git'' example_world))
     = Stored example_details"
  by (simp add: clone_prepare_state_file clone_repository_def failed_attempt_state_file
        clone_failed_def example_env_def example_world_def example_details_def
        not_found_result_def)

text \<open>
  Claim C2, as amended. Every clone invocation that fails returns a failure text and
  leaves the session empty in memory; the state file holds the empty record when the
  write of the cleared state succeeded; and when the clone command ended with a
  non-zero exit or an unexpected fault and the removal of the temporary directory
  succeeded, that directory no longer exists.
\<close>

theorem failed_clone:
  assumes "clone_failed env"
  shows "(startswith (fst (clone_repository env u w)) ''Error''
          \<or> startswith (fst (clone_repository env u w))
               ''An unexpected error occurred during clone: '')
       \<and> active_repo_details (snd (clone_repository env u w)) = empty_details
       \<and> (save_cleared env = Written \<longrightarrow>
            state_file (snd (clone_repository env u w)) = Stored empty_details)
       \<and> (\<forall>root rnd. mkdtemp env = TempCreated root rnd
              \<and> git_clone env \<noteq> FileNotFoundError \<and> rm_temp env = Removed \<longrightarrow>
            mkdtemp_path root rnd \<notin> dirs (snd (clone_repository env u w)))"
  using assms failed_attempt_text [OF assms, of u "clone_prepare env w"]
  by (auto simp: clone_repository_def failed_attempt_active failed_attempt_state_file
        failed_attempt_temp_dir clone_prepare_active clone_prepare_state_file)

text \<open>The theorem at a clone of a repository that does not exist.\<close>

theorem failed_clone_witness:
  "clone_failed (example_env\<lparr>git_clone := not_found_result\<rparr>)
   \<and> fst (clone_repository (example_env\<lparr>git_clone := not_found_result\<rparr>)
            ''https://github.com/a/none.git'' example_world)
       = ''Error cloning repository https://github.com/a/none.git: fatal: repository not found''
   \<and> state_file (snd (clone_repository (example_env\<lparr>git_clone := not_found_result\<rparr>)
            ''https://github.com/a/none.git'' example_world)) = Stored empty_details
   \<and> ''/tmp/mcp_clone_k3x9'' \<notin> dirs (snd (clone_repository
            (example_env\<lparr>git_clone := not_found_result\<rparr>)
            ''https://github.com/a/none.git'' example_world))"
proof -
  let ?env = "example_env\<lparr>git_clone := not_found_result\<rparr>"
  have f: "clone_failed ?env"
    by (simp add: clone_failed_def example_env_def not_found_result_def)
  have m: "mkdtemp ?env = TempCreated ''/tmp'' ''k3x9''" "save_cleared ?env = Written"
    "git_clone ?env \<noteq> FileNotFoundError" "rm_temp ?env = Removed"
    by (simp_all add: example_env_def not_found_result_def)
  have p: "mkdtemp_path ''/tmp'' ''k3x9'' = ''/tmp/mcp_clone_k3x9''"
    by (simp add: mkdtemp_path_def os_path_join_def startswith_def endswith_def)
  have t: "fst (clone_repository ?env ''https://github.com/a/none.git'' example_world)
       = ''Error cloning repository https://github.com/a/none.git: fatal: repository not found''"
    by (simp add: clone_repository_def attempt_created [OF m(1)] Let_def)
       (simp add: example_env_def not_found_result_def)
  from failed_clone [OF f, of "''https://github.com/a/none.git''" example_world] m p t f
  show ?thesis by auto
qed

text \<open>
  Claim C2 as stated fails when the removal of the temporary directory fails: the
  failure is only logged and the directory stays.
\<close>

theorem failed_clone_counterexample:
  "clone_failed (example_env\<lparr>git_clone := not_found_result, rm_temp := RmFailed ''Permission denied''\<rparr>)
   \<and> ''/tmp/mcp_clone_k3x9'' \<in> dirs (snd (clone_repository
         (example_env\<lparr>git_clone := not_found_result, rm_temp := RmFailed ''Permission denied''\<rparr>)
         ''https://github.com/a/none.git'' example_world))"
proof -
  let ?env = "example_env\<lparr>git_clone := not_found_result, rm_temp := RmFailed ''Permission denied''\<rparr>"
  have m: "mkdtemp ?env = TempCreated ''/tmp'' ''k3x9''" by (simp add: example_env_def)
  have p: "mkdtemp_path ''/tmp'' ''k3x9'' = ''/tmp/mcp_clone_k3x9''"
    by (simp add: mkdtemp_path_def os_path_join_def startswith_def endswith_def)
  show ?thesis
    by (simp add: clone_failed_def clone_repository_def attempt_created [OF m] Let_def p)
       (simp add: example_env_def not_found_result_def cleanup_temp_def rmtree_def)
qed

text \<open>
  The handler for a missing \<open>git\<close> executable returns without the removal that the
  handlers for a non-zero exit and for an unexpected fault perform: the temporary
  directory stays although nothing prevented its removal.
\<close>

lemma missing_git_keeps_temp_dir:
  "fst (clone_repository (example_env\<lparr>git_clone := FileNotFoundError\<rparr>)
          ''https://github.com/a/b.git'' example_world) = GIT_NOT_FOUND
   \<and> rm_temp (example_env\<lparr>git_clone := FileNotFoundError\<rparr>) = Removed
   \<and> ''/tmp/mcp_clone_k3x9'' \<in> dirs (snd (clone_repository
          (example_env\<lparr>git_clone := FileNotFoundError\<rparr>)
          ''https://github.com/a/b.git'' example_world))"
proof -
  let ?env = "example_env\<lparr>git_clone := FileNotFoundError\<rparr>"
  have m: "mkdtemp ?env = TempCreated ''/tmp'' ''k3x9''" by (simp add: example_env_def)
  have p: "mkdtemp_path ''/tmp'' ''k3x9'' = ''/tmp/mcp_clone_k3x9''"
    by (simp add: mkdtemp_path_def os_path_join_def startswith_def endswith_def)
  show ?thesis
    by (simp add: clone_repository_def attempt_created [OF m] Let_def p)
       (simp add: example_env_def)
qed

text \<open>
  Claim C3, as amended. Let the session name an existing directory \<open>D\<close>, and let the
  clone not be given a temporary directory of the same name. Whether the clone then
  succeeds or fails: if the removal of \<open>D\<close> succeeded, \<open>D\<close> does not exist afterwards;
  and unless the state file could not be opened for the write of the cleared state,
  the persisted record afterwards is the empty record, or is unreadable, or is as a
  whole the record of the new clone (its path the new temporary directory, its URL
  the one just cloned, its owner and name parsed from that URL), so that neither its
  path nor its identity fields are those stored for \<open>D\<close>.
\<close>

theorem clone_replaces_previous:
  assumes "path (active_repo_details w) = Some d" and "d \<noteq> []" and "d \<in> dirs w"
    and "\<forall>root rnd. mkdtemp env = TempCreated root rnd \<longrightarrow> mkdtemp_path root rnd \<noteq> d"
  shows "(rm_previous env = Removed \<longrightarrow> d \<notin> dirs (snd (clone_repository env u w)))
       \<and> (save_cleared env \<noteq> OpenFailed \<longrightarrow>
            stored_path (state_file (snd (clone_repository env u w))) \<noteq> Some d
            \<and> (state_file (snd (clone_repository env u w)) = Stored empty_details
               \<or> state_file (snd (clone_repository env u w)) = Unparseable
               \<or> (\<exists>root rnd. mkdtemp env = TempCreated root rnd
                    \<and> state_file (snd (clone_repository env u w))
                        = Stored \<lparr>path = Some (mkdtemp_path root rnd), url = Some u,
                                  owner = fst (parse_repo_url u),
                                  name = snd (parse_repo_url u)\<rparr>)))"
proof -
  have a: "d \<notin> dirs (snd (clone_repository env u w))" if r: "rm_previous env = Removed"
  proof -
    have "d \<notin> dirs (clone_prepare env w)"
      using assms(1-3) r by (rule clone_prepare_removes)
    with attempt_dirs [of env u "clone_prepare env w"] assms(4) show ?thesis
      by (cases "mkdtemp env") (auto simp: clone_repository_def)
  qed
  have b: "stored_path (state_file (snd (clone_repository env u w))) \<noteq> Some d"
    if s: "save_cleared env \<noteq> OpenFailed"
  proof -
    have "stored_path (state_file (clone_prepare env w)) \<noteq> Some d"
      using s by (cases "save_cleared env")
        (simp_all add: clone_prepare_state_file stored_path_def empty_details_def)
    then show ?thesis
      unfolding clone_repository_def using assms(4) by (rule attempt_stored_path)
  qed
  have c: "state_file (snd (clone_repository env u w)) = Stored empty_details
         \<or> state_file (snd (clone_repository env u w)) = Unparseable
         \<or> (\<exists>root rnd. mkdtemp env = TempCreated root rnd
              \<and> state_file (snd (clone_repository env u w))
                  = Stored \<lparr>path = Some (mkdtemp_path root rnd), url = Some u,
                            owner = fst (parse_repo_url u), name = snd (parse_repo_url u)\<rparr>)"
    if s: "save_cleared env \<noteq> OpenFailed"
  proof -
    have "state_file (clone_prepare env w) = Stored empty_details
          \<or> state_file (clone_prepare env w) = Unparseable"
      using s by (cases "save_cleared env") (simp_all add: clone_prepare_state_file)
    with attempt_state_file [of env u "clone_prepare env w"] show ?thesis
      unfolding clone_repository_def by auto
  qed
  from a b c show ?thesis by blast
qed

text \<open>The theorem at the example state, for a clone that succeeds.\<close>

theorem clone_replaces_previous_witness:
  "path (active_repo_details example_world) = Some ''/tmp/mcp_clone_old''
   \<and> ''/tmp/mcp_clone_old'' \<in> dirs example_world
   \<and> ''/tmp/mcp_clone_old'' \<notin> dirs (snd (clone_repository example_env
          ''https://github.com/c/d.git'' example_world))
   \<and> stored_path (state_file (snd (clone_repository example_env
          ''https://github.com/c/d.git'' example_world))) \<noteq> Some ''/tmp/mcp_clone_old''
   \<and> state_file (snd (clone_repository example_env
          ''https://github.com/c/d.git'' example_world))
       = Stored \<lparr>path = Some ''/tmp/mcp_clone_k3x9'', url = Some ''https://github.com/c/d.git'',
                 owner = Some ''c'', name = Some ''d''\<rparr>"
proof -
  have h: "path (active_repo_details example_world) = Some ''/tmp/mcp_clone_old''"
    "''/tmp/mcp_clone_old'' \<in> dirs example_world"
    by (simp_all add: example_world_def example_details_def)
  have t: "\<forall>root rnd. mkdtemp example_env = TempCreated root rnd \<longrightarrow>
             mkdtemp_path root rnd \<noteq> ''/tmp/mcp_clone_old''"
    by (simp add: example_env_def mkdtemp_path_def os_path_join_def startswith_def endswith_def)
  have e: "rm_previous example_env = Removed" "save_cleared example_env \<noteq> OpenFailed"
    "mkdtemp example_env = TempCreated ''/tmp'' ''k3x9''"
    by (simp_all add: example_env_def)
  have p: "mkdtemp_path ''/tmp'' ''k3x9'' = ''/tmp/mcp_clone_k3x9''"
    by (simp add: mkdtemp_path_def os_path_join_def startswith_def endswith_def)
  have u: "parse_repo_url ''https://github.com/c/d.git'' = (Some ''c'', Some ''d'')"
    by (simp add: parse_repo_url_def match_here_def alt_http_def alt_git_def owner_name_def
          opt_lit_def not_slash_def at_end_def endswith_def)
  have ne: "Stored \<lparr>path = Some ''/tmp/mcp_clone_k3x9'', url = Some ''https://github.com/c/d.git'',
                  owner = Some ''c'', name = Some ''d''\<rparr> \<noteq> Stored empty_details"
    by (simp add: empty_details_def)
  have s: "state_file (snd (clone_repository example_env
          ''https://github.com/c/d.git'' example_world))
       = Stored \<lparr>path = Some ''/tmp/mcp_clone_k3x9'', url = Some ''https://github.com/c/d.git'',
                 owner = Some ''c'', name = Some ''d''\<rparr>"
    by (simp add: clone_repository_def attempt_created [OF e(3)] Let_def p)
       (simp add: example_env_def save_state_def u)
  from clone_replaces_previous [OF h(1) _ h(2) t, of "''https://github.com/c/d.git''"] e h s
  show ?thesis by simp
qed

text \<open>
  Claim C3 as stated fails when the removal of \<open>D\<close> fails: the failure is only a
  warning, the clone goes on and succeeds, and \<open>D\<close> is still there.
\<close>

theorem clone_replaces_previous_counterexample:
  "path (active_repo_details example_world) = Some ''/tmp/mcp_clone_old''
   \<and> ''/tmp/mcp_clone_old'' \<in> dirs example_world
   \<and> \<not> clone_failed (example_env\<lparr>rm_previous := RmFailed ''Permission denied''\<rparr>)
   \<and> ''/tmp/mcp_clone_old'' \<in> dirs (snd (clone_repository
         (example_env\<lparr>rm_previous := RmFailed ''Permission denied''\<rparr>)
         ''https://github.com/c/d.git'' example_world))"
proof -
  let ?env = "example_env\<lparr>rm_previous := RmFailed ''Permission denied''\<rparr>"
  have m: "mkdtemp ?env = TempCreated ''/tmp'' ''k3x9''" by (simp add: example_env_def)
  have g: "git_clone ?env = Completed 0 [] ''Cloning into ...''" by (simp add: example_env_def)
  have d: "''/tmp/mcp_clone_old'' \<in> dirs (clone_prepare ?env example_world)"
    by (simp add: clone_prepare_def save_state_dirs cleanup_previous_def rmtree_def
          example_env_def example_world_def example_details_def os_path_exists_def)
  show ?thesis
    using d
    by (simp add: clone_repository_def attempt_created [OF m] g Let_def save_state_dirs
          clone_failed_def m)
       (simp add: example_world_def example_details_def)
qed

section \<open>Properties of the tools\<close>

lemma create_git_branch_world: "snd (create_git_branch run b base w) = w"
  by (simp add: create_git_branch_def Let_def)

lemma git_commit_changes_world: "snd (git_commit_changes add_run commit_run m w) = w"
  by (simp add: git_commit_changes_def Let_def)

lemma git_push_branch_world: "snd (git_push_branch run b up w) = w"
  by (simp add: git_push_branch_def Let_def)

lemma create_github_pr_world: "snd (create_github_pr gh t bd bb hb w) = w"
  by (simp add: create_github_pr_def Let_def)

lemma read_file_in_repo_world: "snd (read_file_in_repo rel w) = w"
  by (simp add: read_file_in_repo_def Let_def)

lemma list_files_in_repo_world: "snd (list_files_in_repo relpath walk w) = w"
  by (simp add: list_files_in_repo_def Let_def)

lemma makedirs_walk_active:
  "active_repo_details (snd (makedirs_walk w pl cs)) = active_repo_details w"
proof (induction cs arbitrary: w pl)
  case Nil
  then show ?case by simp
next
  case (Cons c cs)
  show ?case
  proof (cases "step_into w pl c")
    case None
    then show ?thesis by simp
  next
    case (Some pl')
    have "active_repo_details
            (snd (makedirs_walk (w\<lparr>dirs := insert (place_key pl') (dirs w)\<rparr>) pl' cs))
          = active_repo_details w"
      using Cons.IH [of "w\<lparr>dirs := insert (place_key pl') (dirs w)\<rparr>" pl'] by simp
    with Some Cons.IH [of w pl'] show ?thesis by simp
  qed
qed

lemma os_makedirs_active:
  "active_repo_details (snd (os_makedirs p w)) = active_repo_details w"
  by (simp add: os_makedirs_def makedirs_walk_active)

lemma write_file_in_repo_active:
  "active_repo_details (snd (write_file_in_repo mk wr rf rel c w)) = active_repo_details w"
proof -
  have m: "active_repo_details w1 = active_repo_details w" if "os_makedirs p w = (ok, w1)"
    for p ok w1
    using os_makedirs_active [of p w] that by simp
  show ?thesis
    by (auto simp: write_file_in_repo_def Let_def m
        split: io_outcome.splits file_write_outcome.splits option.splits prod.splits if_splits)
qed

lemma truthy_Some: "truthy (Some s) = (s \<noteq> [])"
  by (simp add: truthy_def)

lemma truthy_None: "\<not> truthy None"
  by (simp add: truthy_def)

lemma successful_clone_active:
  assumes "mkdtemp env = TempCreated root rnd" and "git_clone env = Completed 0 out err"
  shows "active_repo_details (snd (clone_repository env u w)) =
           \<lparr>path = Some (mkdtemp_path root rnd), url = Some u,
            owner = fst (parse_repo_url u), name = snd (parse_repo_url u)\<rparr>"
  using assms(2)
  by (simp add: clone_repository_def attempt_created [OF assms(1)] Let_def save_state_active)

lemma successful_clone_state_file:
  assumes "mkdtemp env = TempCreated root rnd" and "git_clone env = Completed 0 out err"
    and "save_cloned env = Written"
  shows "state_file (snd (clone_repository env u w)) =
           Stored (active_repo_details (snd (clone_repository env u w)))"
  using assms(2,3)
  by (simp add: clone_repository_def attempt_created [OF assms(1)] Let_def save_state_def)

lemma clone_repository_active:
  "active_repo_details (snd (clone_repository env u w)) = empty_details
   \<or> truthy (path (active_repo_details (snd (clone_repository env u w))))"
proof (cases "clone_failed env")
  case True
  then show ?thesis
    by (simp add: clone_repository_def failed_attempt_active clone_prepare_active)
next
  case False
  then obtain root rnd out err where "mkdtemp env = TempCreated root rnd"
    and "git_clone env = Completed 0 out err"
    by (auto simp: clone_failed_def split: mkdtemp_outcome.splits run_result.splits)
  then show ?thesis
    by (simp add: successful_clone_active truthy_Some temp_dir_nonempty)
qed

lemma process_start_active:
  "active_repo_details (process_start w) = empty_details
   \<or> truthy (path (active_repo_details (process_start w)))"
  by (auto simp: process_start_def load_state_def truthy_def
      split: stored.splits option.splits)

text \<open>In a state that a process can reach, a session without a path is entirely empty.\<close>

lemma reachable_no_path:
  "reachable w \<Longrightarrow> \<not> truthy (path (active_repo_details w)) \<Longrightarrow>
   active_repo_details w = empty_details"
proof (induction rule: reachable.induct)
  case (start w)
  then show ?case using process_start_active [of w] by blast
next
  case (clone w env repo_url)
  then show ?case using clone_repository_active [of env repo_url w] by blast
next
  case (write_file w mk wr rf rel c)
  then show ?case by (simp add: write_file_in_repo_active)
qed (simp_all add: create_git_branch_world git_commit_changes_world git_push_branch_world
       create_github_pr_world read_file_in_repo_world list_files_in_repo_world)

subsection \<open>Paths\<close>

lemma startswith_iff: "startswith s pre \<longleftrightarrow> (\<exists>r. s = pre @ r)"
  unfolding startswith_def
  by (metis append_eq_conv_conj append_take_drop_id)

lemma startswith_refl: "startswith s s"
  by (simp add: startswith_def)

lemma startswith_trans: "startswith b a \<Longrightarrow> startswith c b \<Longrightarrow> startswith c a"
  by (auto simp: startswith_iff)

lemma join_relative: "\<not> startswith rel ''/'' \<Longrightarrow> startswith (os_path_join base rel) base"
  by (simp add: os_path_join_def startswith_iff)

lemma name_not_absolute: "CHR ''/'' \<notin> set n \<Longrightarrow> \<not> startswith n ''/''"
  by (cases n) (auto simp: startswith_def)

lemma os_walk_roots:
  "entry_names_ok t \<Longrightarrow> (root, ds, fs) \<in> set (os_walk top_dir t) \<Longrightarrow>
   startswith root top_dir \<and> (\<forall>f\<in>set fs. CHR ''/'' \<notin> set f)"
proof (induction top_dir t arbitrary: root ds fs rule: os_walk.induct)
  case (1 top_dir file_names subs)
  from "1.prems"(2) consider "(root, ds, fs) = (top_dir, map fst subs, file_names)"
    | d t where "(d, t) \<in> set subs" "(root, ds, fs) \<in> set (os_walk (os_path_join top_dir d) t)"
    by auto
  then show ?case
  proof cases
    case 1
    with "1.prems"(1) show ?thesis by (auto simp: startswith_refl)
  next
    case 2
    from "1.prems"(1) 2(1) have ok: "entry_names_ok t" and d: "CHR ''/'' \<notin> set d" by auto
    from "1.IH" [OF 2(1) refl ok 2(2)]
    have "startswith root (os_path_join top_dir d)" and fs: "\<forall>f\<in>set fs. CHR ''/'' \<notin> set f"
      by auto
    moreover have "startswith (os_path_join top_dir d) top_dir"
      using d by (intro join_relative name_not_absolute)
    ultimately show ?thesis using startswith_trans by blast
  qed
qed

lemma walked_files_below:
  assumes "entry_names_ok t" and "full \<in> set (walked_files base t)"
  shows "startswith full base"
proof -
  from assms(2) obtain root ds fs f where w: "(root, ds, fs) \<in> set (os_walk base t)"
    and f: "f \<in> set fs" and full: "full = os_path_join root f"
    by (auto simp: walked_files_def)
  from os_walk_roots [OF assms(1) w] f
  have "startswith root base" and "CHR ''/'' \<notin> set f" by auto
  then show ?thesis unfolding full
    using join_relative name_not_absolute startswith_trans by blast
qed

section \<open>Claims about the tools\<close>

text \<open>
  Claim C8. In every state a process can reach in which the session has no path, each
  of the seven tools that need an active repository (create branch, commit, push,
  create pull request, read file, write file, list files) returns the fixed text
  \<open>Error: No active repository. Please clone a repository first using
  'clone_repository'.\<close> whatever its arguments and whatever the environment would
  answer, and leaves the whole state, the session included, as it was.
\<close>

theorem no_active_repository:
  assumes "reachable w" and "\<not> truthy (path (active_repo_details w))"
  shows "create_git_branch run branch_name base_branch w = (NO_ACTIVE_REPOSITORY, w)
       \<and> git_commit_changes add_run commit_run commit_message w = (NO_ACTIVE_REPOSITORY, w)
       \<and> git_push_branch push_run pushed_branch set_upstream w = (NO_ACTIVE_REPOSITORY, w)
       \<and> create_github_pr gh title body base head w = (NO_ACTIVE_REPOSITORY, w)
       \<and> read_file_in_repo read_path w = (NO_ACTIVE_REPOSITORY, w)
       \<and> write_file_in_repo makedirs_io write_io refused write_path content w
           = (NO_ACTIVE_REPOSITORY, w)
       \<and> list_files_in_repo relpath walk w = (NO_ACTIVE_REPOSITORY, w)
       \<and> NO_ACTIVE_REPOSITORY =
           ''Error: No active repository. Please clone a repository first using 'clone_repository'.''"
proof -
  from reachable_no_path [OF assms] have "owner (active_repo_details w) = None"
    by (simp add: empty_details_def)
  then have "\<not> truthy (owner (active_repo_details w))" by (simp add: truthy_None)
  with assms(2) show ?thesis
    by (simp add: create_git_branch_def git_commit_changes_def git_push_branch_def
          create_github_pr_def read_file_in_repo_def write_file_in_repo_def
          list_files_in_repo_def NO_ACTIVE_REPOSITORY_def apos_def)
qed

text \<open>The theorem in a process that has started without a state file.\<close>

theorem no_active_repository_witness:
  "reachable (process_start (example_world\<lparr>state_file := NoFile\<rparr>))
   \<and> \<not> truthy (path (active_repo_details (process_start (example_world\<lparr>state_file := NoFile\<rparr>))))
   \<and> create_github_pr (PullCreated ''https://github.com/a/b/pull/1'') ''t'' ''b'' ''main'' ''dev''
        (process_start (example_world\<lparr>state_file := NoFile\<rparr>))
       = (NO_ACTIVE_REPOSITORY, process_start (example_world\<lparr>state_file := NoFile\<rparr>))
   \<and> read_file_in_repo ''README.md'' (process_start (example_world\<lparr>state_file := NoFile\<rparr>))
       = (NO_ACTIVE_REPOSITORY, process_start (example_world\<lparr>state_file := NoFile\<rparr>))"
proof -
  let ?w = "process_start (example_world\<lparr>state_file := NoFile\<rparr>)"
  have r: "reachable ?w" by (rule reachable.start)
  have p: "\<not> truthy (path (active_repo_details ?w))"
    by (simp add: process_start_def load_state_def empty_details_def truthy_def)
  from no_active_repository [OF r p, where gh = "PullCreated ''https://github.com/a/b/pull/1''"
      and title = "''t''" and body = "''b''" and base = "''main''" and head = "''dev''"
      and read_path = "''README.md''"] r p
  show ?thesis by simp
qed

text \<open>
  Claim C9. The claim holds of the list tool: every file it reports is reached from the
  repository root through directory entries (\<open>walked_files_below\<close>). It does not hold
  of the read and write tools, whose descriptions say that the file is within the
  active repository: nothing checks where \<open>os.path.join(base_path, relative_file_path)\<close>
  leads. With the session at \<open>/tmp/mcp_clone_old\<close>, the arguments \<open>/etc/passwd\<close> and
  \<open>../../etc/passwd\<close> make the read tool return the content of \<open>/etc/passwd\<close>, and the
  write tool overwrites that file.
\<close>

theorem file_tools_escape:
  "path (active_repo_details example_world) = Some ''/tmp/mcp_clone_old''
   \<and> files example_world ''/etc/passwd'' = Some (Text ''root:x:0:0'')
   \<and> fst (read_file_in_repo ''/etc/passwd'' example_world) = ''root:x:0:0''
   \<and> fst (read_file_in_repo ''../../etc/passwd'' example_world) = ''root:x:0:0''
   \<and> fst (write_file_in_repo IoDone FileWritten ''refused'' ''/etc/passwd'' ''gone'' example_world)
       = ''Successfully wrote content to /etc/passwd''
   \<and> files (snd (write_file_in_repo IoDone FileWritten ''refused'' ''/etc/passwd'' ''gone''
                    example_world)) ''/etc/passwd'' = Some (Text ''gone'')
   \<and> fst (write_file_in_repo IoDone FileWritten ''refused'' ''../../etc/passwd'' ''gone''
             example_world)
       = ''Successfully wrote content to /tmp/mcp_clone_old/../../etc/passwd''
   \<and> files (snd (write_file_in_repo IoDone FileWritten ''refused'' ''../../etc/passwd'' ''gone''
                    example_world)) ''/etc/passwd'' = Some (Text ''gone'')"
  by (simp add: read_file_in_repo_def write_file_in_repo_def Let_def example_world_def
        example_details_def truthy_def py_str_def os_path_join_def os_path_dirname_def
        startswith_def endswith_def not_slash_def exists_resolved_def isfile_resolved_def
        resolve_def os_makedirs_def step_into_def is_dir_at_def is_file_at_def place_key_def
        join_with_def)

text \<open>
  The file tools inside the repository, on a file system that holds \<open>a.txt\<close> with a
  Windows line end: the name and its alias \<open>./a.txt\<close> read the same file with the line
  end translated; the empty argument names the repository directory, which exists
  and is no file; a name below a directory that is missing is not found; what is
  written under one name is read back under another name of the same file.
\<close>

lemma file_tools_examples:
  "fst (read_file_in_repo ''a.txt''
          (example_world\<lparr>files := [''/tmp/mcp_clone_old/a.txt'' \<mapsto> Text (''alpha'' @ [CHR 0x0D, CHR 0x0A])]\<rparr>))
     = ''alpha\<newline>''"
  "fst (read_file_in_repo ''./a.txt''
          (example_world\<lparr>files := [''/tmp/mcp_clone_old/a.txt'' \<mapsto> Text (''alpha'' @ [CHR 0x0D, CHR 0x0A])]\<rparr>))
     = ''alpha\<newline>''"
  "fst (read_file_in_repo [] example_world)
     = ''Error: Path exists but is not a file: /tmp/mcp_clone_old/''"
  "fst (read_file_in_repo ''missing/../a.txt''
          (example_world\<lparr>files := [''/tmp/mcp_clone_old/a.txt'' \<mapsto> Text ''alpha'']\<rparr>))
     = ''Error: File not found at /tmp/mcp_clone_old/missing/../a.txt''"
  "fst (read_file_in_repo ''src/../src/./main.py''
          (snd (write_file_in_repo IoDone FileWritten ''refused'' ''src/main.py'' ''pass''
                  example_world)))
     = ''pass''"
  "fst (write_file_in_repo IoDone FileWritten ''refused'' [] ''x'' example_world)
     = ''Error writing file /tmp/mcp_clone_old/ in active repo: refused''"
  "''/tmp/mcp_clone_old/new'' \<in> dirs (snd (write_file_in_repo IoDone FileWritten ''refused''
       ''new/../a.txt/z/f'' ''x''
       (example_world\<lparr>files := [''/tmp/mcp_clone_old/a.txt'' \<mapsto> Text ''alpha'']\<rparr>)))"
  by (simp_all add: read_file_in_repo_def write_file_in_repo_def Let_def example_world_def
        example_details_def truthy_def py_str_def os_path_join_def os_path_dirname_def
        startswith_def endswith_def not_slash_def exists_resolved_def isfile_resolved_def
        resolve_def os_makedirs_def step_into_def is_dir_at_def is_file_at_def place_key_def
        join_with_def)

text \<open>
  Claim C10, as amended. On a URL of the shape \<open>http://host/O/.git\<close>,
  \<open>https://host/O/.git\<close> or \<open>git@host:O/.git\<close>, with \<open>O\<close> non-empty and without a
  slash and the host as the expression wants it, the parser returns the owner \<open>O\<close>
  together with the empty string as name, not two absent values. Whenever the parser
  returns an owner with the empty name, a successful clone of that URL records the
  empty name in the session (and in the state file when the write succeeds), and the
  pull-request tool then answers with the text for missing owner or name, without
  calling the forge. On every other URL whose final path segment is exactly \<open>.git\<close>
  the parser returns either two absent values or, again, a non-empty owner with the
  empty name.
\<close>

theorem dot_git_name:
  "(ow \<noteq> [] \<and> CHR ''/'' \<notin> set ow \<and> host \<noteq> [] \<and> CHR ''/'' \<notin> set host
      \<and> (scheme = ''http'' \<or> scheme = ''https'') \<longrightarrow>
      parse_repo_url (scheme @ ''://'' @ host @ ''/'' @ ow @ ''/.git'') = (Some ow, Some []))
   \<and> (ow \<noteq> [] \<and> CHR ''/'' \<notin> set ow \<and> host \<noteq> [] \<and> (\<forall>c\<in>set host. host_char c) \<longrightarrow>
      parse_repo_url (''git@'' @ host @ '':'' @ ow @ ''/.git'') = (Some ow, Some []))
   \<and> (final_segment u = ''.git'' \<longrightarrow>
      parse_repo_url u = (None, None)
      \<or> (\<exists>found. found \<noteq> [] \<and> parse_repo_url u = (Some found, Some [])))
   \<and> (parse_repo_url u = (Some ow, Some [])
      \<and> mkdtemp env = TempCreated root rnd \<and> git_clone env = Completed 0 out err \<longrightarrow>
        owner (active_repo_details (snd (clone_repository env u w))) = Some ow
        \<and> name (active_repo_details (snd (clone_repository env u w))) = Some []
        \<and> (save_cloned env = Written \<longrightarrow>
             state_file (snd (clone_repository env u w))
               = Stored (active_repo_details (snd (clone_repository env u w))))
        \<and> create_github_pr gh title body base head (snd (clone_repository env u w))
            = (OWNER_NAME_MISSING, snd (clone_repository env u w)))"
proof -
  have dot: "''.git'' \<noteq> []" "\<forall>c\<in>set ''.git''. not_slash c"
    by (simp_all add: not_slash_def)
  have h: "parse_repo_url (scheme @ ''://'' @ host @ ''/'' @ ow @ ''/.git'') = (Some ow, Some [])"
    if "ow \<noteq> []" "CHR ''/'' \<notin> set ow" "host \<noteq> []" "CHR ''/'' \<notin> set host"
      "scheme = ''http'' \<or> scheme = ''https''"
  proof -
    have "re_search (scheme @ ''://'' @ host @ CHR ''/'' # ow @ CHR ''/'' # ''.git'')
            = Some (ow, ''.git'')"
      using that dot by (intro parse_http_shape not_slash_set) simp_all
    then show ?thesis by (simp add: parse_repo_url_def endswith_def)
  qed
  have g: "parse_repo_url (''git@'' @ host @ '':'' @ ow @ ''/.git'') = (Some ow, Some [])"
    if "ow \<noteq> []" "CHR ''/'' \<notin> set ow" "host \<noteq> []" "\<forall>c\<in>set host. host_char c"
  proof -
    have "re_search (''git@'' @ host @ CHR '':'' # ow @ CHR ''/'' # ''.git'')
            = Some (ow, ''.git'')"
      using that dot by (intro parse_git_shape not_slash_set) simp_all
    then show ?thesis by (simp add: parse_repo_url_def endswith_def)
  qed
  have f: "parse_repo_url u = (None, None)
         \<or> (\<exists>found. found \<noteq> [] \<and> parse_repo_url u = (Some found, Some []))"
    if seg: "final_segment u = ''.git''"
  proof (cases "re_search u")
    case None
    then show ?thesis by (simp add: parse_repo_url_def)
  next
    case (Some m)
    obtain g1 g2 where m: "m = (g1, g2)" by (cases m)
    from re_search_final_segment [of u g1 g2] Some m seg
    have "g2 = ''.git''" and "g1 \<noteq> []" by simp_all
    with Some m have "parse_repo_url u = (Some g1, Some [])"
      by (simp add: parse_repo_url_def endswith_def)
    with \<open>g1 \<noteq> []\<close> show ?thesis by blast
  qed
  have c: "owner (active_repo_details (snd (clone_repository env u w))) = Some ow
         \<and> name (active_repo_details (snd (clone_repository env u w))) = Some []
         \<and> (save_cloned env = Written \<longrightarrow>
              state_file (snd (clone_repository env u w))
                = Stored (active_repo_details (snd (clone_repository env u w))))
         \<and> create_github_pr gh title body base head (snd (clone_repository env u w))
             = (OWNER_NAME_MISSING, snd (clone_repository env u w))"
    if p: "parse_repo_url u = (Some ow, Some [])"
      and m: "mkdtemp env = TempCreated root rnd" and gc: "git_clone env = Completed 0 out err"
  proof -
    have a: "active_repo_details (snd (clone_repository env u w)) =
           \<lparr>path = Some (mkdtemp_path root rnd), url = Some u, owner = Some ow, name = Some []\<rparr>"
      using successful_clone_active [OF m gc, of u w] by (simp add: p)
    then show ?thesis
      using successful_clone_state_file [OF m gc, of u w]
      by (simp add: create_github_pr_def truthy_def temp_dir_nonempty)
  qed
  from h g f c show ?thesis by blast
qed

text \<open>The theorem at such a URL, cloned successfully into the example state.\<close>

theorem dot_git_name_witness:
  "parse_repo_url ''https://github.com/owner/.git'' = (Some ''owner'', Some [])
   \<and> parse_repo_url ''git@github.com:owner/.git'' = (Some ''owner'', Some [])
   \<and> final_segment ''https://github.com/owner/.git'' = ''.git''
   \<and> name (active_repo_details (snd (clone_repository example_env
        ''https://github.com/owner/.git'' example_world))) = Some []
   \<and> fst (create_github_pr (PullCreated ''https://github.com/owner//pull/1'')
        ''title'' ''body'' ''main'' ''dev''
        (snd (clone_repository example_env ''https://github.com/owner/.git'' example_world)))
       = OWNER_NAME_MISSING"
proof -
  have f: "final_segment ''https://github.com/owner/.git'' = ''.git''"
    by (simp add: final_segment_def not_slash_def)
  have e: "mkdtemp example_env = TempCreated ''/tmp'' ''k3x9''"
    "git_clone example_env = Completed 0 [] ''Cloning into ...''"
    by (simp_all add: example_env_def)
  have hc: "\<forall>c\<in>set ''github.com''. host_char c"
    by (simp add: host_char_def word_char_def)
  note t = dot_git_name [where ow = "''owner''" and host = "''github.com''"
      and scheme = "''https''" and u = "''https://github.com/owner/.git''"
      and env = example_env and w = example_world and root = "''/tmp''" and rnd = "''k3x9''"
      and out = "[]" and err = "''Cloning into ...''"
      and gh = "PullCreated ''https://github.com/owner//pull/1''" and title = "''title''"
      and body = "''body''" and base = "''main''" and head = "''dev''"]
  have p: "parse_repo_url ''https://github.com/owner/.git'' = (Some ''owner'', Some [])"
    using t by simp
  have q: "parse_repo_url ''git@github.com:owner/.git'' = (Some ''owner'', Some [])"
    using t hc by simp
  from t p q e f show ?thesis by simp
qed

text \<open>
  Claim C10 as stated (every URL whose final path segment is \<open>.git\<close>) fails: without
  an owner segment, or with a scheme that is not recognised, the parser returns two
  absent values.
\<close>

theorem dot_git_name_counterexample:
  "final_segment ''https://host/.git'' = ''.git''
   \<and> parse_repo_url ''https://host/.git'' = (None, None)
   \<and> final_segment ''ftp://host/owner/.git'' = ''.git''
   \<and> parse_repo_url ''ftp://host/owner/.git'' = (None, None)"
  by (simp add: final_segment_def not_slash_def parse_repo_url_def match_here_def
        alt_http_def alt_git_def owner_name_def opt_lit_def at_end_def)

end
